theory Spec2Isabelle
  imports Complex_Main
begin

section \<open>JavaScript strings\<close>

text \<open>
  A JavaScript string is modelled as a \<^typ>\<open>string\<close>, one \<^typ>\<open>char\<close> per code unit, for
  code units below 256. \<open>String.prototype.trim\<close> strips the white space and line
  terminator code units at both ends; below 256 these are TAB, LF, VT, FF, CR, SPACE and
  NBSP. A string is truthy exactly when it is not empty.
\<close>

definition isWhiteSpace :: "char \<Rightarrow> bool" where
  "isWhiteSpace c = (c \<in> set [CHR 0x09, CHR 0x0A, CHR 0x0B, CHR 0x0C, CHR 0x0D, CHR '' '', CHR 0xA0])"

definition trim :: "string \<Rightarrow> string" where
  "trim s = rev (dropWhile isWhiteSpace (rev (dropWhile isWhiteSpace s)))"

text \<open>\<open>s.split(c)\<close> for a one-character separator: always at least one piece.\<close>

fun splitOn :: "char \<Rightarrow> string \<Rightarrow> string list" where
  "splitOn c [] = [[]]"
| "splitOn c (x # xs) =
     (if x = c then [] # splitOn c xs
      else (case splitOn c xs of
              [] \<Rightarrow> [[x]]
            | y # ys \<Rightarrow> (x # y) # ys))"

text \<open>\<open>pieces.join(sep)\<close>.\<close>

fun joinWith :: "string \<Rightarrow> string list \<Rightarrow> string" where
  "joinWith sep [] = []"
| "joinWith sep [x] = x"
| "joinWith sep (x # y # ys) = x @ sep @ joinWith sep (y # ys)"

section \<open>Numeric Comparator\<close>

subsection \<open>extractNumerics\<close>

text \<open>
  \<^verbatim>\<open>const numericRegex = /-?\d+(?:,\d{3})*(?:\.\d+)?/g;\<close>

  Every quantifier of the expression is greedy and everything after \<^verbatim>\<open>\d+\<close> may match
  the empty string, so the first alternative the engine tries at a position is the one it
  keeps: the optional sign, the longest run of digits, as many groups of a comma and three
  digits as follow, then a dot with the longest non-empty run of digits if there is one.
  \<^verbatim>\<open>\d\<close> is an ASCII digit.
\<close>

definition isDigit :: "char \<Rightarrow> bool" where
  "isDigit c = (c \<in> set ''0123456789'')"

text \<open>\<^verbatim>\<open>(?:,\d{3})*\<close>: the matched text and what is left.\<close>

fun matchGroups :: "string \<Rightarrow> string \<times> string" where
  "matchGroups (c # d1 # d2 # d3 # rest) =
     (if c = CHR '','' \<and> isDigit d1 \<and> isDigit d2 \<and> isDigit d3
      then (case matchGroups rest of (m, r) \<Rightarrow> (c # d1 # d2 # d3 # m, r))
      else ([], c # d1 # d2 # d3 # rest))"
| "matchGroups s = ([], s)"

text \<open>\<^verbatim>\<open>(?:\.\d+)?\<close>\<close>

definition matchFraction :: "string \<Rightarrow> string \<times> string" where
  "matchFraction s =
     (case s of
        [] \<Rightarrow> ([], s)
      | c # t \<Rightarrow>
          if c = CHR ''.'' \<and> takeWhile isDigit t \<noteq> []
          then (c # takeWhile isDigit t, dropWhile isDigit t)
          else ([], s))"

text \<open>\<^verbatim>\<open>\d+(?:,\d{3})*(?:\.\d+)?\<close>\<close>

definition matchUnsigned :: "string \<Rightarrow> (string \<times> string) option" where
  "matchUnsigned s =
     (if takeWhile isDigit s = [] then None
      else (case matchGroups (dropWhile isDigit s) of
              (g, r1) \<Rightarrow> (case matchFraction r1 of
                            (f, r2) \<Rightarrow> Some (takeWhile isDigit s @ g @ f, r2))))"

text \<open>
  The whole expression at the start of \<open>s\<close>. After a \<open>-\<close> that no digit follows the
  engine retries without the sign, and then \<^verbatim>\<open>\d+\<close> fails on the \<open>-\<close> itself.
\<close>

definition matchNumericAt :: "string \<Rightarrow> (string \<times> string) option" where
  "matchNumericAt s =
     (case s of
        [] \<Rightarrow> None
      | c # t \<Rightarrow>
          if c = CHR ''-''
          then (case matchUnsigned t of
                  None \<Rightarrow> None
                | Some (m, r) \<Rightarrow> Some (c # m, r))
          else matchUnsigned s)"

text \<open>
  \<open>text.match(numericRegex)\<close> with the \<open>g\<close> flag: all matches from left to right. The
  first argument counts the code units still covered by the previous match, where no
  new match is tried; elsewhere an attempt that fails moves one code unit further.
\<close>

fun matchAll :: "nat \<Rightarrow> string \<Rightarrow> string list" where
  "matchAll k [] = []"
| "matchAll (Suc k) (c # cs) = matchAll k cs"
| "matchAll 0 (c # cs) =
     (case matchNumericAt (c # cs) of
        None \<Rightarrow> matchAll 0 cs
      | Some (m, r) \<Rightarrow> m # matchAll (length m - 1) cs)"

text \<open>
  \<^verbatim>\<open>const numbers = text.match(numericRegex) || [];
  return numbers.map(n => n.replace(/,/g, '')).join('\n');\<close>
\<close>

definition extractNumerics :: "string \<Rightarrow> string" where
  "extractNumerics text =
     joinWith [CHR 0x0A] (map (filter (\<lambda>c. c \<noteq> CHR '','')) (matchAll 0 text))"

subsection \<open>parseNumericComparison\<close>

record numeric_change =
  category :: string
  oldValue :: string
  newValue :: string
  changeType :: string

text \<open>
  A JavaScript \<open>Map\<close> iterates in insertion order and \<open>set\<close> on a key already there
  replaces its value in place: an association list with unique keys.
\<close>

type_synonym js_map = "(string \<times> string) list"

fun mapSet :: "js_map \<Rightarrow> string \<Rightarrow> string \<Rightarrow> js_map" where
  "mapSet [] k v = [(k, v)]"
| "mapSet ((k', v') # m) k v = (if k' = k then (k', v) # m else (k', v') # mapSet m k v)"

definition mapGet :: "js_map \<Rightarrow> string \<Rightarrow> string option" where
  "mapGet m k = map_of m k"

definition mapKeys :: "js_map \<Rightarrow> string list" where
  "mapKeys m = map fst m"

text \<open>\<open>new Set(xs)\<close> as its iteration order: a value enters at its first occurrence.\<close>

fun setAdd :: "'a list \<Rightarrow> 'a \<Rightarrow> 'a list" where
  "setAdd s x = (if x \<in> set s then s else s @ [x])"

definition newSet :: "'a list \<Rightarrow> 'a list" where
  "newSet xs = foldl setAdd [] xs"

text \<open>\<^verbatim>\<open>text.split('\n').filter(n => n.trim())\<close>\<close>

definition nonBlankLines :: "string \<Rightarrow> string list" where
  "nonBlankLines text = filter (\<lambda>n. trim n \<noteq> []) (splitOn (CHR 0x0A) text)"

text \<open>
  \<^verbatim>\<open>const [variable, value] = line.split('=').map(s => s.trim());
  if (variable && value) { ... }\<close>

  The destructuring takes the first two pieces; \<open>value\<close> is \<open>undefined\<close> when there is
  only one. The result is the pair the line contributes, if the guard lets it through.
\<close>

definition parseLine :: "string \<Rightarrow> (string \<times> string) option" where
  "parseLine line =
     (case map trim (splitOn (CHR ''='') line) of
        variable # value # _ \<Rightarrow>
          if variable \<noteq> [] \<and> value \<noteq> [] then Some (variable, value) else None
      | _ \<Rightarrow> None)"

definition parseInto :: "js_map \<Rightarrow> string \<Rightarrow> js_map" where
  "parseInto m line = (case parseLine line of None \<Rightarrow> m | Some (variable, value) \<Rightarrow> mapSet m variable value)"

definition parseLines :: "string list \<Rightarrow> js_map" where
  "parseLines ls = foldl parseInto [] ls"

text \<open>\<^verbatim>\<open>map.get(variable) || '0'\<close>\<close>

definition orZero :: "string option \<Rightarrow> string" where
  "orZero v = (case v of None \<Rightarrow> ''0'' | Some s \<Rightarrow> if s = [] then ''0'' else s)"

definition compareVariable ::
  "js_map \<Rightarrow> js_map \<Rightarrow> numeric_change list \<Rightarrow> string \<Rightarrow> numeric_change list" where
  "compareVariable oldMap newMap comparison variable =
     (let oldValue = orZero (mapGet oldMap variable);
          newValue = orZero (mapGet newMap variable)
      in if oldValue \<noteq> newValue
         then comparison @ [\<lparr>category = variable, oldValue = oldValue, newValue = newValue,
                             changeType = ''change''\<rparr>]
         else comparison)"

definition parseNumericComparison :: "string \<Rightarrow> string \<Rightarrow> string \<Rightarrow> numeric_change list" where
  "parseNumericComparison oldText newText sectionTitle =
     (let oldMap = parseLines (nonBlankLines oldText);
          newMap = parseLines (nonBlankLines newText);
          allVariables = newSet (mapKeys oldMap @ mapKeys newMap)
      in foldl (compareVariable oldMap newMap) [] allVariables)"

section \<open>Sections of a document\<close>

subsection \<open>The document capability\<close>

text \<open>
  What \<open>parsePdf\<close> uses of the decoded document. A promise either rejects (the
  \<open>await\<close> throws) or fulfils with a value. An outline item's \<open>dest\<close> is \<open>null\<close>, a
  name or an explicit destination array; an element of a destination array is
  \<open>Some\<close> reference, or \<open>None\<close> for a falsy element (or the missing first element of an
  empty array). \<open>getPageIndex\<close> fulfils with a zero-based index. \<open>pageItems j\<close> holds the
  \<open>str\<close> of every text item of page \<open>j\<close>. Numbers are mathematical integers:
  page counts are far below the range where doubles lose precision.
\<close>

datatype 'a promise = Rejects | Fulfils 'a

datatype 'r js_dest = DestString string | DestArray "'r option list"

datatype 'r outline_item =
  OutlineItem (title_of: string) (dest: "'r js_dest option") (items: "'r outline_item list")

record 'r pdf =
  numPages :: nat
  getOutline :: "'r outline_item list option"
  getDestination :: "'r js_dest \<Rightarrow> 'r option list option promise"
  getPageIndex :: "'r option \<Rightarrow> nat promise"
  pageItems :: "int \<Rightarrow> string list"

record pdf_section =
  title :: string
  startPage :: int
  level :: "nat option"
  hasValidPage :: bool

datatype parse_mode = TOC | PAGES

record extracted_section =
  ex_title :: string
  ex_text :: string

subsection \<open>Outline Resolver: the traversal\<close>

text \<open>\<open>if (item.dest)\<close>: \<open>null\<close> and the empty string are falsy, an array is truthy.\<close>

definition destTruthy :: "'r js_dest option \<Rightarrow> bool" where
  "destTruthy d = (case d of None \<Rightarrow> False | Some (DestString s) \<Rightarrow> s \<noteq> [] | Some (DestArray a) \<Rightarrow> True)"

definition firstElement :: "'r option list \<Rightarrow> 'r option" where
  "firstElement a = (case a of [] \<Rightarrow> None | r # _ \<Rightarrow> r)"

text \<open>
  The inner \<open>try\<close> block: \<open>getDestination\<close>, then \<open>getPageIndex\<close> of the first element
  when the destination and that element are truthy. \<open>Rejects\<close> is a throw out of it.
\<close>

definition resolveDestination :: "'r pdf \<Rightarrow> 'r js_dest \<Rightarrow> int option promise" where
  "resolveDestination pdf d =
     (case getDestination pdf d of
        Rejects \<Rightarrow> Rejects
      | Fulfils destination \<Rightarrow>
          (case destination of
             None \<Rightarrow> Fulfils None
           | Some arr \<Rightarrow>
               (case firstElement arr of
                  None \<Rightarrow> Fulfils None
                | Some r \<Rightarrow>
                    (case getPageIndex pdf (Some r) of
                       Rejects \<Rightarrow> Rejects
                     | Fulfils pageIndex \<Rightarrow> Fulfils (Some (int pageIndex + 1))))))"

text \<open>
  The inner \<open>catch\<close>: a named destination is given up with a warning; for an array
  \<open>getPageIndex(item.dest[0])\<close> is tried, and its failure is a warning too.
\<close>

definition alternativeMethod :: "'r pdf \<Rightarrow> 'r js_dest \<Rightarrow> int option" where
  "alternativeMethod pdf d =
     (case d of
        DestString s \<Rightarrow> None
      | DestArray a \<Rightarrow>
          (case getPageIndex pdf (firstElement a) of
             Rejects \<Rightarrow> None
           | Fulfils pageIndex \<Rightarrow> Some (int pageIndex + 1)))"

text \<open>Lines 41 to 63: \<open>pageNum\<close> after the whole \<open>if (item.dest)\<close> statement.\<close>

definition resolvePageNum :: "'r pdf \<Rightarrow> 'r js_dest option \<Rightarrow> int option" where
  "resolvePageNum pdf dst =
     (case dst of
        None \<Rightarrow> None
      | Some d \<Rightarrow>
          if destTruthy dst
          then (case resolveDestination pdf d of
                  Fulfils p \<Rightarrow> p
                | Rejects \<Rightarrow> alternativeMethod pdf d)
          else None)"

text \<open>
  Lines 65 to 77, with \<open>pageNum0\<close> the value of \<open>pageNum\<close> on entry:
  \<^verbatim>\<open>
  if (pageNum === null && item.title) {
    pageNum = sections.length + 1;
  }
  if (item.title && item.title.trim()) {
    sections.push({ title: item.title.trim(), startPage: pageNum || sections.length + 1,
                    level: level, hasValidPage: pageNum !== null });
  }\<close>
\<close>

definition emitSection :: "nat \<Rightarrow> string \<Rightarrow> int option \<Rightarrow> pdf_section list \<Rightarrow> pdf_section list" where
  "emitSection lvl ttl pageNum0 sections =
     (let pageNum = (if pageNum0 = None \<and> ttl \<noteq> []
                     then Some (int (length sections) + 1) else pageNum0)
      in if ttl \<noteq> [] \<and> trim ttl \<noteq> []
         then sections @
                [\<lparr>title = trim ttl,
                  startPage = (case pageNum of
                                 None \<Rightarrow> int (length sections) + 1
                               | Some p \<Rightarrow> if p = 0 then int (length sections) + 1 else p),
                  level = Some lvl,
                  hasValidPage = (pageNum \<noteq> None)\<rparr>]
         else sections)"

text \<open>
  Lines 79 to 88, the handler of the outer \<open>try\<close>:
  \<^verbatim>\<open>
  if (item.title && item.title.trim()) {
    sections.push({ title: item.title.trim(), startPage: sections.length + 1,
                    level: level, hasValidPage: false });
  }\<close>
  With a string title and the destination lookups guarded by the inner \<open>try\<close>, no
  statement of the outer block raises, so the traversal below never enters the handler.
\<close>

definition emitAfterError :: "nat \<Rightarrow> string \<Rightarrow> pdf_section list \<Rightarrow> pdf_section list" where
  "emitAfterError lvl ttl sections =
     (if ttl \<noteq> [] \<and> trim ttl \<noteq> []
      then sections @
             [\<lparr>title = trim ttl, startPage = int (length sections) + 1,
               level = Some lvl, hasValidPage = False\<rparr>]
      else sections)"

text \<open>\<open>processOutline\<close>: depth first, each item before its children.\<close>

fun processOutline :: "'r pdf \<Rightarrow> nat \<Rightarrow> 'r outline_item list \<Rightarrow> pdf_section list \<Rightarrow> pdf_section list" where
  "processOutline pdf lvl [] sections = sections"
| "processOutline pdf lvl (OutlineItem ttl dst kids # rest) sections =
     (let sections1 = emitSection lvl ttl (resolvePageNum pdf dst) sections;
          sections2 = (if length kids > 0
                       then processOutline pdf (lvl + 1) kids sections1
                       else sections1)
      in processOutline pdf lvl rest sections2)"

subsection \<open>Outline Resolver: deduplication and page assignment\<close>

text \<open>\<open>self.findIndex(p)\<close>: the first index where \<open>p\<close> holds, or \<open>-1\<close>.\<close>

fun findIndex :: "('a \<Rightarrow> bool) \<Rightarrow> 'a list \<Rightarrow> int" where
  "findIndex p [] = - 1"
| "findIndex p (x # xs) =
     (if p x then 0 else (let r = findIndex p xs in if r < 0 then - 1 else r + 1))"

text \<open>
  \<^verbatim>\<open>sections.filter((section, index, self) =>
    index === self.findIndex((s) => s.title === section.title))\<close>
\<close>

definition dedupSections :: "pdf_section list \<Rightarrow> pdf_section list" where
  "dedupSections sections =
     map snd (filter (\<lambda>(index, s). int index = findIndex (\<lambda>t. title t = title s) sections)
                     (enumerate 0 sections))"

text \<open>\<open>Math.ceil(a / b)\<close>\<close>

definition mathCeilDiv :: "int \<Rightarrow> int \<Rightarrow> int" where
  "mathCeilDiv a b = \<lceil>real_of_int a / real_of_int b\<rceil>"

text \<open>
  \<^verbatim>\<open>invalidPageSections.forEach((section, index) => {
    section.startPage = Math.ceil(pdf.numPages / (invalidPageSections.length + 1)) * (index + 1);
  });\<close>
\<close>

definition spreadInvalid :: "nat \<Rightarrow> pdf_section list \<Rightarrow> pdf_section list" where
  "spreadInvalid P invalidPageSections =
     map (\<lambda>(index, s).
            s\<lparr>startPage := mathCeilDiv (int P) (int (length invalidPageSections) + 1) * (int index + 1)\<rparr>)
         (enumerate 0 invalidPageSections)"

text \<open>
  \<^verbatim>\<open>sections.forEach((section, index) => {
    section.startPage = Math.ceil(pdf.numPages / sections.length) * index + 1;
  });\<close>
\<close>

definition spreadAll :: "nat \<Rightarrow> pdf_section list \<Rightarrow> pdf_section list" where
  "spreadAll P sections =
     map (\<lambda>(index, s).
            s\<lparr>startPage := mathCeilDiv (int P) (int (length sections)) * int index + 1\<rparr>)
         (enumerate 0 sections)"

text \<open>
  Lines 105 to 118. \<open>Array.prototype.sort\<close> is stable, and so is \<^const>\<open>sort_key\<close>.
\<close>

definition assignPages :: "nat \<Rightarrow> pdf_section list \<Rightarrow> pdf_section list" where
  "assignPages P sections =
     (let validPageSections = filter hasValidPage sections;
          invalidPageSections = filter (\<lambda>s. \<not> hasValidPage s) sections
      in if length validPageSections > 0
         then sort_key startPage
                (sort_key startPage validPageSections @ spreadInvalid P invalidPageSections)
         else spreadAll P sections)"

subsection \<open>Page Fallback Segmenter\<close>

text \<open>The decimal digits of a number, as a template literal prints it.\<close>

definition digitChar :: "nat \<Rightarrow> char" where
  "digitChar d = ''0123456789'' ! d"

function numberToString :: "nat \<Rightarrow> string" where
  "numberToString n =
     (if n < 10 then [digitChar n] else numberToString (n div 10) @ [digitChar (n mod 10)])"
  by pat_completeness auto
termination
  by (relation "measure (\<lambda>n. n)") auto

declare numberToString.simps [simp del]

text \<open>
  \<^verbatim>\<open>for (let i = 1; i <= pdf.numPages; i++) {
    sections.push({ title: `Page ${i}`, startPage: i, hasValidPage: true });
  }\<close>
\<close>

function pageLoop :: "nat \<Rightarrow> nat \<Rightarrow> pdf_section list \<Rightarrow> pdf_section list" where
  "pageLoop i P sections =
     (if i \<le> P
      then pageLoop (i + 1) P
             (sections @ [\<lparr>title = ''Page '' @ numberToString i, startPage = int i,
                            level = None, hasValidPage = True\<rparr>])
      else sections)"
  by pat_completeness auto
termination
  by (relation "measure (\<lambda>(i, P, sections). P + 1 - i)") auto

declare pageLoop.simps [simp del]

subsection \<open>The final section list\<close>

text \<open>Lines 97 to 122: the sections the outline gives.\<close>

definition outlineSections :: "'r pdf \<Rightarrow> pdf_section list" where
  "outlineSections pdf =
     (case getOutline pdf of
        None \<Rightarrow> []
      | Some outline \<Rightarrow>
          if length outline > 0
          then (let sections = processOutline pdf 0 outline []
                in if length sections > 0
                   then assignPages (numPages pdf) (dedupSections sections)
                   else sections)
          else [])"

text \<open>Lines 124 to 135: the fallback, or the clamp to the page count.\<close>

definition finalSections :: "'r pdf \<Rightarrow> pdf_section list \<times> parse_mode" where
  "finalSections pdf =
     (let sections = outlineSections pdf
      in if length sections = 0
         then (pageLoop 1 (numPages pdf) sections, PAGES)
         else (map (\<lambda>s. s\<lparr>startPage := min (startPage s) (int (numPages pdf))\<rparr>) sections, TOC))"

subsection \<open>Section Text Extractor\<close>

text \<open>\<^verbatim>\<open>textContent.items.map(item => item.str).join(' ')\<close>\<close>

definition pageText :: "'r pdf \<Rightarrow> int \<Rightarrow> string" where
  "pageText pdf j = joinWith '' '' (pageItems pdf j)"

text \<open>
  \<^verbatim>\<open>for (let j = startPage; j <= endPage; j++) {
    if (j > pdf.numPages || j < 1) continue;
    const page = await pdf.getPage(j);
    const textContent = await page.getTextContent();
    sectionText += textContent.items.map(item => item.str).join(' ');
  }\<close>
  The state of the loop is \<open>sectionText\<close> and the list of the pages fetched with
  \<open>getPage\<close> so far.
\<close>

function readPages :: "'r pdf \<Rightarrow> int \<Rightarrow> int \<Rightarrow> string \<times> int list \<Rightarrow> string \<times> int list" where
  "readPages pdf j endPage acc =
     (if j \<le> endPage
      then (if j > int (numPages pdf) \<or> j < 1
            then readPages pdf (j + 1) endPage acc
            else readPages pdf (j + 1) endPage (fst acc @ pageText pdf j, snd acc @ [j]))
      else acc)"
  by pat_completeness auto
termination
  by (relation "measure (\<lambda>(pdf, j, endPage, acc). nat (endPage + 1 - j))") auto

declare readPages.simps [simp del]

text \<open>
  Lines 137 to 149. The loop over \<open>i\<close> sees \<open>sections[i]\<close> and, when there is one,
  \<open>sections[i + 1]\<close>. Each section yields its extracted section and the pages fetched
  for it.
\<close>

fun extractFrom :: "'r pdf \<Rightarrow> pdf_section list \<Rightarrow> (extracted_section \<times> int list) list" where
  "extractFrom pdf [] = []"
| "extractFrom pdf [s] =
     (case readPages pdf (startPage s) (int (numPages pdf)) ([], []) of
        (sectionText, fetched) \<Rightarrow> [(\<lparr>ex_title = title s, ex_text = sectionText\<rparr>, fetched)])"
| "extractFrom pdf (s # s' # rest) =
     (case readPages pdf (startPage s) (startPage s' - 1) ([], []) of
        (sectionText, fetched) \<Rightarrow>
          (\<lparr>ex_title = title s, ex_text = sectionText\<rparr>, fetched) # extractFrom pdf (s' # rest))"

definition extractedSections :: "'r pdf \<Rightarrow> pdf_section list \<Rightarrow> extracted_section list" where
  "extractedSections pdf sections = map fst (extractFrom pdf sections)"

definition pagesFetched :: "'r pdf \<Rightarrow> pdf_section list \<Rightarrow> int list list" where
  "pagesFetched pdf sections = map snd (extractFrom pdf sections)"

text \<open>
  \<open>parsePdf\<close>, from the decoded document on; \<open>None\<close> is the call without a file. A
  document that cannot be decoded rejects the promise before any of this runs.
\<close>

definition parsePdf :: "'r pdf option \<Rightarrow> extracted_section list \<times> parse_mode" where
  "parsePdf file =
     (case file of
        None \<Rightarrow> ([], PAGES)
      | Some pdf \<Rightarrow>
          (case finalSections pdf of
             (sections, parseMode) \<Rightarrow> (extractedSections pdf sections, parseMode)))"

section \<open>Comparison and export\<close>

record diff_part =
  partValue :: string
  added :: bool
  removed :: bool

text \<open>
  An entry of \<open>comparisonResult\<close>: \<open>{ title, changes }\<close> or
  \<open>{ title, changes: null, numericChanges }\<close>; \<open>None\<close> is \<open>null\<close> or a missing field.
\<close>

record comparison_entry =
  entryTitle :: string
  changes :: "diff_part list option"
  numericChanges :: "numeric_change list option"

text \<open>A row of the sheet; only numeric rows have the \<open>Category\<close> column.\<close>

record export_row =
  sectionTitle :: string
  rowCategory :: "string option"
  rowOldValue :: string
  rowNewValue :: string
  differenceType :: string

text \<open>The component's state, one field for each \<open>useState\<close>.\<close>

record 'f app_state =
  page :: string
  oldPdf :: "'f option"
  newPdf :: "'f option"
  oldPdfSections :: "extracted_section list"
  newPdfSections :: "extracted_section list"
  newPdfName :: string
  oldPdfName :: string
  combinedSections :: "string list"
  selectedSections :: "string \<rightharpoonup> bool"
  onlyNumeric :: bool
  comparisonResult :: "comparison_entry list"
  isLoading :: bool
  error :: string
  fallbackMessage :: string

subsection \<open>handleCompare\<close>

text \<open>\<open>section ? section.text : ''\<close> after \<open>sections.find(s => s.title === title)\<close>\<close>

definition sectionText :: "extracted_section list \<Rightarrow> string \<Rightarrow> string" where
  "sectionText sections ttl =
     (case find (\<lambda>s. ex_title s = ttl) sections of None \<Rightarrow> [] | Some s \<Rightarrow> ex_text s)"

text \<open>
  The body of \<open>combinedSections.forEach\<close>. \<open>diffLines\<close> stands for the line differ of the
  \<open>diff\<close> package with the options the call passes.
\<close>

definition compareSection ::
  "(string \<Rightarrow> string \<Rightarrow> diff_part list) \<Rightarrow> 'f app_state \<Rightarrow> comparison_entry list \<Rightarrow> string
     \<Rightarrow> comparison_entry list" where
  "compareSection diffLines st results ttl =
     (if selectedSections st ttl \<noteq> Some True then results
      else
        (let oldText = sectionText (oldPdfSections st) ttl;
             newText = sectionText (newPdfSections st) ttl
         in if onlyNumeric st
            then (let numericComparison =
                        parseNumericComparison (extractNumerics oldText) (extractNumerics newText) ttl
                  in if length numericComparison > 0
                     then results @ [\<lparr>entryTitle = ttl, changes = None,
                                       numericChanges = Some numericComparison\<rparr>]
                     else results)
            else (let differences = diffLines (trim oldText) (trim newText);
                      chs = filter (\<lambda>part. added part \<or> removed part) differences
                  in if length chs > 0
                     then results @ [\<lparr>entryTitle = ttl, changes = Some chs, numericChanges = None\<rparr>]
                     else results)))"

definition handleCompare ::
  "(string \<Rightarrow> string \<Rightarrow> diff_part list) \<Rightarrow> 'f app_state \<Rightarrow> 'f app_state" where
  "handleCompare diffLines st =
     (let results = foldl (compareSection diffLines st) [] (combinedSections st)
      in st\<lparr>error := [], comparisonResult := results, isLoading := False\<rparr>)"

subsection \<open>handleExport\<close>

text \<open>The \<open>while\<close> loop over \<open>changes\<close>, on the parts from index \<open>i\<close> on.\<close>

definition emptyRow :: "string \<Rightarrow> bool \<Rightarrow> export_row" where
  "emptyRow ttl numeric =
     \<lparr>sectionTitle = ttl, rowCategory = None, rowOldValue = [], rowNewValue = [],
      differenceType = (if numeric then ''Numeric'' else ''Textual'')\<rparr>"

fun textRows :: "string \<Rightarrow> bool \<Rightarrow> diff_part list \<Rightarrow> export_row list" where
  "textRows ttl numeric [] = []"
| "textRows ttl numeric [current] =
     (if removed current
      then [(emptyRow ttl numeric)\<lparr>rowOldValue := trim (partValue current)\<rparr>]
      else if added current
      then [(emptyRow ttl numeric)\<lparr>rowNewValue := trim (partValue current)\<rparr>]
      else [emptyRow ttl numeric])"
| "textRows ttl numeric (current # next # rest) =
     (if removed current \<and> added next
      then (emptyRow ttl numeric)\<lparr>rowOldValue := trim (partValue current),
                                   rowNewValue := trim (partValue next)\<rparr>
             # textRows ttl numeric rest
      else if removed current
      then (emptyRow ttl numeric)\<lparr>rowOldValue := trim (partValue current)\<rparr>
             # textRows ttl numeric (next # rest)
      else if added current
      then (emptyRow ttl numeric)\<lparr>rowNewValue := trim (partValue current)\<rparr>
             # textRows ttl numeric (next # rest)
      else emptyRow ttl numeric # textRows ttl numeric (next # rest))"

definition numericRow :: "string \<Rightarrow> numeric_change \<Rightarrow> export_row" where
  "numericRow ttl change =
     \<lparr>sectionTitle = ttl, rowCategory = Some (category change), rowOldValue = oldValue change,
      rowNewValue = newValue change, differenceType = ''Numeric''\<rparr>"

text \<open>The body of \<open>comparisonResult.forEach\<close>.\<close>

definition entryRows :: "bool \<Rightarrow> comparison_entry \<Rightarrow> export_row list" where
  "entryRows numeric e =
     (case numericChanges e of
        Some ncs \<Rightarrow> map (numericRow (entryTitle e)) ncs
      | None \<Rightarrow>
          (case changes e of
             Some chs \<Rightarrow> textRows (entryTitle e) numeric chs
           | None \<Rightarrow> []))"

definition buildExportData :: "'f app_state \<Rightarrow> export_row list" where
  "buildExportData st =
     foldl (\<lambda>exportData e. exportData @ entryRows (onlyNumeric st) e) [] (comparisonResult st)"

text \<open>
  The one effect of the export: \<open>XLSX.writeFile\<close> of a workbook with one sheet, given by
  the sheet's name, its rows and the file name.
\<close>

datatype effect = WriteFile string "export_row list" string

definition handleExport :: "'f app_state \<Rightarrow> 'f app_state \<times> effect list" where
  "handleExport st =
     (let exportData = buildExportData st
      in if length exportData > 0
         then (st, [WriteFile ''Differences'' exportData ''Rate_Comparison_Report.xlsx''])
         else (st\<lparr>error := ''No differences to export.''\<rparr>, []))"

section \<open>The specification's wording, for comparison\<close>

text \<open>
  The specification's reading of a \<open>key = value\<close> line: split at the first \<open>=\<close>; the
  key is the trimmed text before it, the value the trimmed remainder of the whole line.
\<close>

definition spec_parseLine :: "string \<Rightarrow> (string \<times> string) option" where
  "spec_parseLine line =
     (if CHR ''='' \<in> set line
      then (let variable = trim (takeWhile (\<lambda>x. x \<noteq> CHR ''='') line);
                val = trim (drop 1 (dropWhile (\<lambda>x. x \<noteq> CHR ''='') line))
            in if variable \<noteq> [] \<and> val \<noteq> [] then Some (variable, val) else None)
      else None)"

text \<open>
  The specification's reading of the Export Row Builder: a removed part directly followed
  by an added part gives one row with both values, any other removed part an old-only
  row, any other added part a new-only row, and an unchanged part gives no row. The rows
  are filled as the code fills them (trimmed values, the section title, the difference
  type).
\<close>

fun spec_exportRows :: "string \<Rightarrow> bool \<Rightarrow> diff_part list \<Rightarrow> export_row list" where
  "spec_exportRows ttl numeric [] = []"
| "spec_exportRows ttl numeric [p] =
     (if removed p then [(emptyRow ttl numeric)\<lparr>rowOldValue := trim (partValue p)\<rparr>]
      else if added p then [(emptyRow ttl numeric)\<lparr>rowNewValue := trim (partValue p)\<rparr>]
      else [])"
| "spec_exportRows ttl numeric (p # q # rest) =
     (if removed p \<and> added q
      then (emptyRow ttl numeric)\<lparr>rowOldValue := trim (partValue p),
                                   rowNewValue := trim (partValue q)\<rparr>
             # spec_exportRows ttl numeric rest
      else if removed p
      then (emptyRow ttl numeric)\<lparr>rowOldValue := trim (partValue p)\<rparr>
             # spec_exportRows ttl numeric (q # rest)
      else if added p
      then (emptyRow ttl numeric)\<lparr>rowNewValue := trim (partValue p)\<rparr>
             # spec_exportRows ttl numeric (q # rest)
      else spec_exportRows ttl numeric (q # rest))"

section \<open>Example inputs\<close>

text \<open>Three pages and an empty outline.\<close>

definition threePagePdf :: "unit pdf" where
  "threePagePdf =
     \<lparr>numPages = 3, getOutline = Some [], getDestination = (\<lambda>d. Rejects),
      getPageIndex = (\<lambda>r. Rejects), pageItems = (\<lambda>j. [''text''])\<rparr>"

text \<open>
  Numeric-only mode, one selected section whose old and new texts hold different numbers,
  nothing compared yet.
\<close>

definition numericState :: "unit app_state" where
  "numericState =
     \<lparr>page = ''compare'', oldPdf = Some (), newPdf = Some (),
      oldPdfSections = [\<lparr>ex_title = ''Rates'', ex_text = ''rate 10''\<rparr>],
      newPdfSections = [\<lparr>ex_title = ''Rates'', ex_text = ''rate 12''\<rparr>],
      newPdfName = ''new.pdf'', oldPdfName = ''old.pdf'',
      combinedSections = [''Rates''], selectedSections = [''Rates'' \<mapsto> True],
      onlyNumeric = True, comparisonResult = [], isLoading = False, error = [],
      fallbackMessage = []\<rparr>"

text \<open>
  Three pages and one outline item whose named destination resolves to page index 1.
\<close>

definition gapPdf :: "unit pdf" where
  "gapPdf =
     \<lparr>numPages = 3,
      getOutline = Some [OutlineItem ''Rates'' (Some (DestString ''rates'')) []],
      getDestination = (\<lambda>d. Fulfils (Some [Some ()])),
      getPageIndex = (\<lambda>r. Fulfils 1),
      pageItems = (\<lambda>j. [''text''])\<rparr>"

text \<open>Two pages and one titled outline item without a destination.\<close>

definition unresolvedPdf :: "unit pdf" where
  "unresolvedPdf =
     \<lparr>numPages = 2,
      getOutline = Some [OutlineItem ''Intro'' None []],
      getDestination = (\<lambda>d. Rejects),
      getPageIndex = (\<lambda>r. Rejects),
      pageItems = (\<lambda>j. if j = 1 then [''x'', ''y''] else [''z''])\<rparr>"

text \<open>A deduplicated section list with one resolved and four unresolved sections.\<close>

definition mixedSections :: "pdf_section list" where
  "mixedSections =
     [\<lparr>title = ''A'', startPage = 3, level = Some 0, hasValidPage = True\<rparr>,
      \<lparr>title = ''B'', startPage = 2, level = Some 0, hasValidPage = False\<rparr>,
      \<lparr>title = ''C'', startPage = 3, level = Some 1, hasValidPage = False\<rparr>,
      \<lparr>title = ''D'', startPage = 4, level = Some 1, hasValidPage = False\<rparr>,
      \<lparr>title = ''E'', startPage = 5, level = Some 0, hasValidPage = False\<rparr>]"

text \<open>The three kinds of \<open>DiffPart\<close>.\<close>

definition removedPart :: "string \<Rightarrow> diff_part" where
  "removedPart v = \<lparr>partValue = v, added = False, removed = True\<rparr>"

definition addedPart :: "string \<Rightarrow> diff_part" where
  "addedPart v = \<lparr>partValue = v, added = True, removed = False\<rparr>"

definition unchangedPart :: "string \<Rightarrow> diff_part" where
  "unchangedPart v = \<lparr>partValue = v, added = False, removed = False\<rparr>"

text \<open>
  Full-text mode, one selected section with different old and new text, nothing compared
  yet.
\<close>

definition textState :: "unit app_state" where
  "textState =
     \<lparr>page = ''compare'', oldPdf = Some (), newPdf = Some (),
      oldPdfSections = [\<lparr>ex_title = ''Rates'', ex_text = ''a\<newline>k''\<rparr>],
      newPdfSections = [\<lparr>ex_title = ''Rates'', ex_text = ''k\<newline>b''\<rparr>],
      newPdfName = ''new.pdf'', oldPdfName = ''old.pdf'',
      combinedSections = [''Rates''], selectedSections = [''Rates'' \<mapsto> True],
      onlyNumeric = False, comparisonResult = [], isLoading = False, error = [],
      fallbackMessage = []\<rparr>"

text \<open>
  Two outcomes of the line differ: a removed and an added line with an unchanged line
  between them, and a replaced line followed by a removed one.
\<close>

definition gappedDiff :: "string \<Rightarrow> string \<Rightarrow> diff_part list" where
  "gappedDiff oldText newText = [removedPart ''a'', unchangedPart ''k'', addedPart ''b'']"

definition replaceThenRemove :: "string \<Rightarrow> string \<Rightarrow> diff_part list" where
  "replaceThenRemove oldText newText = [removedPart ''A'', addedPart ''B'', removedPart ''C'']"

section \<open>Auxiliary notions\<close>

text \<open>The characters a match of the numeric expression can contain.\<close>

definition numChar :: "char \<Rightarrow> bool" where
  "numChar c = (isDigit c \<or> c = CHR '','' \<or> c = CHR ''.'' \<or> c = CHR ''-'')"

text \<open>The change \<open>parseNumericComparison\<close> pushes for a variable whose two values differ.\<close>

definition changeOf :: "js_map \<Rightarrow> js_map \<Rightarrow> string \<Rightarrow> numeric_change" where
  "changeOf om nm k =
     \<lparr>category = k, oldValue = orZero (mapGet om k), newValue = orZero (mapGet nm k),
      changeType = ''change''\<rparr>"

text \<open>The pages of \<open>a..b\<close> that the extractor's guard lets through.\<close>

definition inRangePages :: "nat \<Rightarrow> int \<Rightarrow> int \<Rightarrow> int list" where
  "inRangePages P a b = filter (\<lambda>j. \<not> (j > int P \<or> j < 1)) [a..b]"

text \<open>\<open>endPage\<close> of the section at index \<open>i\<close>.\<close>

definition endPage :: "nat \<Rightarrow> pdf_section list \<Rightarrow> nat \<Rightarrow> int" where
  "endPage P secs i = (if i + 1 < length secs then startPage (secs ! (i + 1)) - 1 else int P)"

text \<open>The parts \<open>handleCompare\<close> keeps of the diff of a section's two texts.\<close>

definition storedChanges ::
  "(string \<Rightarrow> string \<Rightarrow> diff_part list) \<Rightarrow> 'f app_state \<Rightarrow> string \<Rightarrow> diff_part list" where
  "storedChanges diffLines st ttl =
     filter (\<lambda>part. added part \<or> removed part)
       (diffLines (trim (sectionText (oldPdfSections st) ttl))
                  (trim (sectionText (newPdfSections st) ttl)))"

section \<open>Properties of the Numeric Comparator\<close>

subsection \<open>What the tokenizer emits\<close>

lemma numChar_not_eq: "numChar c \<Longrightarrow> c \<noteq> CHR ''=''"
  by (auto simp: numChar_def isDigit_def)

lemma matchGroups_chars: "\<forall>c \<in> set (fst (matchGroups s)). numChar c"
  by (induction s rule: matchGroups.induct) (auto simp: numChar_def split: prod.splits)

lemma takeWhile_digit_chars: "\<forall>c \<in> set (takeWhile isDigit s). numChar c"
  by (auto simp: numChar_def dest: set_takeWhileD)

lemma matchFraction_chars: "\<forall>c \<in> set (fst (matchFraction s)). numChar c"
  using takeWhile_digit_chars
  by (auto simp: matchFraction_def numChar_def split: list.splits dest: set_takeWhileD)

lemma matchUnsigned_chars: "matchUnsigned s = Some (m, r) \<Longrightarrow> \<forall>c \<in> set m. numChar c"
  using matchGroups_chars [of "dropWhile isDigit s"]
    matchFraction_chars [of "snd (matchGroups (dropWhile isDigit s))"]
    takeWhile_digit_chars [of s]
  by (auto simp: matchUnsigned_def split: if_splits prod.splits)

lemma matchNumericAt_chars: "matchNumericAt s = Some (m, r) \<Longrightarrow> \<forall>c \<in> set m. numChar c"
  by (auto simp: matchNumericAt_def numChar_def split: list.splits if_splits option.splits
      dest!: matchUnsigned_chars)

lemma matchAll_chars: "\<forall>m \<in> set (matchAll k s). \<forall>c \<in> set m. numChar c"
  by (induction k s rule: matchAll.induct)
     (auto split: option.splits dest!: matchNumericAt_chars)

lemma set_joinWith: "set (joinWith sep xs) \<subseteq> set sep \<union> \<Union> (set ` set xs)"
  by (induction sep xs rule: joinWith.induct) auto

lemma extractNumerics_no_eq: "CHR ''='' \<notin> set (extractNumerics inp)"
proof
  assume "CHR ''='' \<in> set (extractNumerics inp)"
  then have "CHR ''='' \<in> set [CHR 0x0A] \<union>
      \<Union> (set ` set (map (filter (\<lambda>c. c \<noteq> CHR '','')) (matchAll 0 inp)))"
    using set_joinWith unfolding extractNumerics_def by blast
  then obtain m where "m \<in> set (matchAll 0 inp)" "CHR ''='' \<in> set m"
    by auto
  then show False
    using matchAll_chars [of 0 inp] numChar_not_eq by blast
qed

lemma splitOn_nonempty: "splitOn c s \<noteq> []"
  by (cases s) (auto split: list.splits)

lemma splitOn_pieces: "p \<in> set (splitOn c s) \<Longrightarrow> set p \<subseteq> set s"
proof (induction s arbitrary: p)
  case Nil
  then show ?case by simp
next
  case (Cons x xs)
  show ?case
  proof (cases "x = c")
    case True
    with Cons show ?thesis by auto
  next
    case False
    obtain y ys where sp: "splitOn c xs = y # ys"
      using splitOn_nonempty [of c xs] by (cases "splitOn c xs") auto
    have "set y \<subseteq> set xs" "\<forall>q \<in> set ys. set q \<subseteq> set xs"
      using Cons.IH sp by auto
    with Cons.prems False sp show ?thesis by auto
  qed
qed

lemma splitOn_absent: "c \<notin> set s \<Longrightarrow> splitOn c s = [s]"
  by (induction s) auto

lemma parseLine_no_eq: "CHR ''='' \<notin> set line \<Longrightarrow> parseLine line = None"
  by (simp add: parseLine_def splitOn_absent)

lemma parseLines_skip: "\<forall>l \<in> set ls. parseLine l = None \<Longrightarrow> foldl parseInto m ls = m"
  by (induction ls arbitrary: m) (auto simp: parseInto_def)

lemma parseLines_no_eq: "CHR ''='' \<notin> set inp \<Longrightarrow> parseLines (nonBlankLines inp) = []"
proof -
  assume a: "CHR ''='' \<notin> set inp"
  have "\<forall>l \<in> set (nonBlankLines inp). parseLine l = None"
  proof
    fix l assume "l \<in> set (nonBlankLines inp)"
    then have "set l \<subseteq> set inp"
      by (auto simp: nonBlankLines_def dest: splitOn_pieces)
    with a show "parseLine l = None"
      by (auto intro: parseLine_no_eq)
  qed
  then show ?thesis
    by (simp add: parseLines_def parseLines_skip)
qed

lemma comparison_of_empty_maps:
  "parseLines (nonBlankLines a) = [] \<Longrightarrow> parseLines (nonBlankLines b) = []
   \<Longrightarrow> parseNumericComparison a b t = []"
  by (simp add: parseNumericComparison_def mapKeys_def newSet_def)

lemma compareSection_numeric:
  assumes "onlyNumeric st"
  shows "compareSection diffLines st results ttl = results"
proof -
  have "parseNumericComparison (extractNumerics a) (extractNumerics b) ttl = []" for a b
    by (intro comparison_of_empty_maps parseLines_no_eq extractNumerics_no_eq)
  with assms show ?thesis
    by (simp add: compareSection_def)
qed

lemma foldl_compareSection_numeric:
  "onlyNumeric st \<Longrightarrow> foldl (compareSection diffLines st) results ts = results"
  by (induction ts arbitrary: results) (simp_all add: compareSection_numeric)

text \<open>
  Claim C2. In numeric-only mode \<open>handleCompare\<close> reports no change for any section:
  the text \<open>extractNumerics\<close> returns contains no \<open>=\<close>, so \<open>parseNumericComparison\<close>
  skips every line of it, both maps stay empty and the comparison of any two extracted
  texts is the empty list; the result list of \<open>handleCompare\<close> is then empty.
\<close>

theorem numeric_only_reports_nothing:
  "CHR ''='' \<notin> set (extractNumerics inp)
   \<and> parseLines (nonBlankLines (extractNumerics inp)) = []
   \<and> parseNumericComparison (extractNumerics oldText) (extractNumerics newText) t = []
   \<and> (onlyNumeric st \<longrightarrow> comparisonResult (handleCompare diffLines st) = [])"
  by (simp add: extractNumerics_no_eq parseLines_no_eq comparison_of_empty_maps
      handleCompare_def foldl_compareSection_numeric)

theorem numeric_only_reports_nothing_witness:
  "onlyNumeric numericState
   \<and> extractNumerics ''rate 10'' = ''10'' \<and> extractNumerics ''rate 12'' = ''12''
   \<and> comparisonResult (handleCompare (\<lambda>a b. []) numericState) = []"
  using numeric_only_reports_nothing [of "''rate 10''" "''rate 10''" "''rate 12''" "''Rates''"
      numericState "\<lambda>a b. []"]
  by (simp add: numericState_def extractNumerics_def matchNumericAt_def matchUnsigned_def
      matchFraction_def isDigit_def)

subsection \<open>Parsing lines into a map\<close>

lemma splitOn_head:
  "splitOn c s = takeWhile (\<lambda>x. x \<noteq> c) s #
     (if c \<in> set s then splitOn c (drop 1 (dropWhile (\<lambda>x. x \<noteq> c) s)) else [])"
  by (induction s) (auto split: list.splits)

lemma splitOn_head2:
  "c \<in> set s \<Longrightarrow> \<exists>ps. splitOn c s = takeWhile (\<lambda>x. x \<noteq> c) s #
     takeWhile (\<lambda>x. x \<noteq> c) (drop 1 (dropWhile (\<lambda>x. x \<noteq> c) s)) # ps"
  using splitOn_head [of c s] splitOn_head [of c "drop 1 (dropWhile (\<lambda>x. x \<noteq> c) s)"]
  by auto

lemma parseLine_fields:
  "parseLine line =
     (if CHR ''='' \<in> set line
      then (let variable = trim (takeWhile (\<lambda>x. x \<noteq> CHR ''='') line);
                val = trim (takeWhile (\<lambda>x. x \<noteq> CHR ''='')
                              (drop 1 (dropWhile (\<lambda>x. x \<noteq> CHR ''='') line)))
            in if variable \<noteq> [] \<and> val \<noteq> [] then Some (variable, val) else None)
      else None)"
proof (cases "CHR ''='' \<in> set line")
  case True
  from splitOn_head2 [OF True] obtain ps where
    "splitOn (CHR ''='') line = takeWhile (\<lambda>x. x \<noteq> CHR ''='') line #
       takeWhile (\<lambda>x. x \<noteq> CHR ''='') (drop 1 (dropWhile (\<lambda>x. x \<noteq> CHR ''='') line)) # ps"
    by blast
  with True show ?thesis
    by (simp add: parseLine_def Let_def)
next
  case False
  then show ?thesis
    by (simp add: parseLine_def splitOn_head)
qed

lemma map_of_mapSet: "map_of (mapSet m k v) = (map_of m)(k \<mapsto> v)"
  by (induction m k v rule: mapSet.induct) (auto simp: fun_eq_iff)

lemma map_filter_None: "f x = None \<Longrightarrow> List.map_filter f (x # xs) = List.map_filter f xs"
  by (simp add: List.map_filter_def)

lemma map_filter_Some: "f x = Some y \<Longrightarrow> List.map_filter f (x # xs) = y # List.map_filter f xs"
  by (simp add: List.map_filter_def)

lemma map_add_upd_swap: "m(k \<mapsto> v) ++ n = m ++ map_of (ps @ [(k, v)])" if "n = map_of ps"
  unfolding that by (rule ext) (simp add: map_add_def split: option.splits)

lemma parseInto_None: "parseLine l = None \<Longrightarrow> parseInto m l = m"
  by (simp add: parseInto_def)

lemma parseInto_Some: "parseLine l = Some (k, v) \<Longrightarrow> parseInto m l = mapSet m k v"
  by (simp add: parseInto_def)

lemma map_of_foldl_parseInto:
  "map_of (foldl parseInto m ls) = map_of m ++ map_of (rev (List.map_filter parseLine ls))"
proof (induction ls arbitrary: m)
  case Nil
  then show ?case by (simp add: List.map_filter_def)
next
  case (Cons l ls)
  show ?case
  proof (cases "parseLine l")
    case None
    then show ?thesis
      using Cons.IH [of m] by (simp add: parseInto_None map_filter_None)
  next
    case (Some kv)
    obtain k v where kv: "kv = (k, v)" by (cases kv)
    have "map_of (foldl parseInto (mapSet m k v) ls)
        = (map_of m)(k \<mapsto> v) ++ map_of (rev (List.map_filter parseLine ls))"
      using Cons.IH [of "mapSet m k v"] by (simp only: map_of_mapSet)
    also have "\<dots> = map_of m ++ map_of (rev (List.map_filter parseLine ls) @ [(k, v)])"
      by (rule map_add_upd_swap) simp
    finally show ?thesis
      using Some kv by (simp add: parseInto_Some map_filter_Some [of parseLine l "(k, v)"])
  qed
qed

lemma mapGet_parseLines:
  "mapGet (parseLines ls) k = map_of (rev (List.map_filter parseLine ls)) k"
  by (simp add: mapGet_def parseLines_def map_of_foldl_parseInto)


text \<open>
  Claim C6, as the code has it. A line is split at every \<open>=\<close> and the first two pieces
  are used: the key is the trimmed text before the first \<open>=\<close>, the value the trimmed text
  between the first \<open>=\<close> and the second (or the end of the line), so \<open>a = b = c\<close> maps
  \<open>a\<close> to \<open>b\<close>. A line with no \<open>=\<close>, an empty key or an empty value is skipped. In the
  map built from a list of lines the last line that parses to a key gives its value.
\<close>

theorem parse_line_first_two_pieces:
  "parseLine line =
     (if CHR ''='' \<in> set line
      then (let variable = trim (takeWhile (\<lambda>x. x \<noteq> CHR ''='') line);
                val = trim (takeWhile (\<lambda>x. x \<noteq> CHR ''='')
                              (drop 1 (dropWhile (\<lambda>x. x \<noteq> CHR ''='') line)))
            in if variable \<noteq> [] \<and> val \<noteq> [] then Some (variable, val) else None)
      else None)
   \<and> mapGet (parseLines ls) k = map_of (rev (List.map_filter parseLine ls)) k
   \<and> parseLine ''a = b = c'' = Some (''a'', ''b'')"
proof (intro conjI)
  show "parseLine ''a = b = c'' = Some (''a'', ''b'')"
    by (simp add: parseLine_def trim_def isWhiteSpace_def)
qed (rule parseLine_fields mapGet_parseLines)+

theorem parse_line_first_two_pieces_witness:
  "mapGet (parseLines [''fee = 5'', ''note'', ''fee = 7 = 9'']) ''fee'' = Some ''7''"
  using parse_line_first_two_pieces [of "''fee = 5''" "[''fee = 5'', ''note'', ''fee = 7 = 9'']" "''fee''"]
  by (simp add: parseLine_def trim_def isWhiteSpace_def List.map_filter_def)

text \<open>
  Claim C6 as it is worded fails: on \<open>a = b = c\<close> the remainder after the first \<open>=\<close>
  is \<open>b = c\<close>, and the code stores \<open>b\<close>.
\<close>

theorem parse_line_remainder_counterexample:
  "spec_parseLine ''a = b = c'' = Some (''a'', ''b = c'')
   \<and> parseLine ''a = b = c'' = Some (''a'', ''b'')
   \<and> mapGet (parseLines (nonBlankLines ''a = b = c'')) ''a'' = Some ''b''
   \<and> mapGet (parseLines (nonBlankLines ''a = b = c'')) ''a'' \<noteq> Some ''b = c''"
  by (simp add: spec_parseLine_def parseLine_def parseLines_def parseInto_def
      nonBlankLines_def mapGet_def trim_def isWhiteSpace_def)

subsection \<open>Comparing the two maps\<close>

lemma foldl_setAdd_set: "set (foldl setAdd acc xs) = set acc \<union> set xs"
  by (induction xs arbitrary: acc) auto

lemma foldl_setAdd_distinct: "distinct acc \<Longrightarrow> distinct (foldl setAdd acc xs)"
  by (induction xs arbitrary: acc) auto

lemma set_newSet: "set (newSet xs) = set xs"
  by (simp add: newSet_def foldl_setAdd_set)

lemma distinct_newSet: "distinct (newSet xs)"
  by (simp add: newSet_def foldl_setAdd_distinct)

lemma foldl_compareVariable:
  "foldl (compareVariable om nm) acc ks =
     acc @ map (changeOf om nm)
             (filter (\<lambda>k. orZero (mapGet om k) \<noteq> orZero (mapGet nm k)) ks)"
  by (induction ks arbitrary: acc) (simp_all add: compareVariable_def changeOf_def Let_def)

lemma parseNumericComparison_eq:
  "parseNumericComparison oldText newText t =
     map (changeOf (parseLines (nonBlankLines oldText)) (parseLines (nonBlankLines newText)))
       (filter (\<lambda>k. orZero (mapGet (parseLines (nonBlankLines oldText)) k)
                    \<noteq> orZero (mapGet (parseLines (nonBlankLines newText)) k))
          (newSet (mapKeys (parseLines (nonBlankLines oldText))
                   @ mapKeys (parseLines (nonBlankLines newText)))))"
  by (simp add: parseNumericComparison_def Let_def foldl_compareVariable)

lemma category_changeOf: "category \<circ> changeOf om nm = (\<lambda>k. k)"
  by (auto simp: changeOf_def)

lemma rate_fee_example:
  "parseNumericComparison ''rate = 10'' ''rate = 10\<newline>fee = 5'' t =
     [\<lparr>category = ''fee'', oldValue = ''0'', newValue = ''5'', changeType = ''change''\<rparr>]"
  by (simp add: parseNumericComparison_def nonBlankLines_def parseLines_def parseInto_def
      parseLine_def trim_def isWhiteSpace_def newSet_def mapKeys_def compareVariable_def
      orZero_def mapGet_def)

text \<open>
  Claim C7. Old text \<open>rate = 10\<close> and new text \<open>rate = 10\<close>, \<open>fee = 5\<close> on two lines
  give exactly one change, for \<open>fee\<close>, from \<open>0\<close> to \<open>5\<close>, and none for \<open>rate\<close>. In
  general, with \<open>om\<close> and \<open>nm\<close> the maps parsed from the two texts: a key of either map
  has a change in the output exactly when its two values, a missing one read as \<open>0\<close>,
  differ; every change in the output is for such a key and carries these two values; no
  key is reported twice.
\<close>

theorem numeric_key_defaulting:
  assumes om: "om = parseLines (nonBlankLines oldText)"
    and nm: "nm = parseLines (nonBlankLines newText)"
  shows "parseNumericComparison ''rate = 10'' ''rate = 10\<newline>fee = 5'' t =
           [\<lparr>category = ''fee'', oldValue = ''0'', newValue = ''5'', changeType = ''change''\<rparr>]
    \<and> (\<forall>k \<in> set (mapKeys om) \<union> set (mapKeys nm).
          (\<exists>c \<in> set (parseNumericComparison oldText newText t). category c = k)
            = (orZero (mapGet om k) \<noteq> orZero (mapGet nm k)))
    \<and> (\<forall>c \<in> set (parseNumericComparison oldText newText t).
          category c \<in> set (mapKeys om) \<union> set (mapKeys nm)
          \<and> oldValue c = orZero (mapGet om (category c))
          \<and> newValue c = orZero (mapGet nm (category c))
          \<and> oldValue c \<noteq> newValue c)
    \<and> distinct (map category (parseNumericComparison oldText newText t))"
proof (intro conjI)
  show "parseNumericComparison ''rate = 10'' ''rate = 10\<newline>fee = 5'' t =
           [\<lparr>category = ''fee'', oldValue = ''0'', newValue = ''5'', changeType = ''change''\<rparr>]"
    by (rule rate_fee_example)
  have eq: "parseNumericComparison oldText newText t =
     map (changeOf om nm)
       (filter (\<lambda>k. orZero (mapGet om k) \<noteq> orZero (mapGet nm k))
          (newSet (mapKeys om @ mapKeys nm)))"
    unfolding om nm by (rule parseNumericComparison_eq)
  show "\<forall>k \<in> set (mapKeys om) \<union> set (mapKeys nm).
          (\<exists>c \<in> set (parseNumericComparison oldText newText t). category c = k)
            = (orZero (mapGet om k) \<noteq> orZero (mapGet nm k))"
    unfolding eq by (auto simp: set_newSet changeOf_def)
  show "\<forall>c \<in> set (parseNumericComparison oldText newText t).
          category c \<in> set (mapKeys om) \<union> set (mapKeys nm)
          \<and> oldValue c = orZero (mapGet om (category c))
          \<and> newValue c = orZero (mapGet nm (category c))
          \<and> oldValue c \<noteq> newValue c"
    unfolding eq by (auto simp: set_newSet changeOf_def)
  show "distinct (map category (parseNumericComparison oldText newText t))"
    unfolding eq by (simp add: category_changeOf distinct_newSet)
qed

theorem numeric_key_defaulting_witness:
  "mapKeys (parseLines (nonBlankLines ''rate = 10'')) = [''rate'']
   \<and> mapKeys (parseLines (nonBlankLines ''rate = 10\<newline>fee = 5'')) = [''rate'', ''fee'']
   \<and> map category (parseNumericComparison ''rate = 10'' ''rate = 10\<newline>fee = 5'' ''Rates'') = [''fee'']
   \<and> orZero (mapGet (parseLines (nonBlankLines ''rate = 10'')) ''fee'') = ''0''"
  using numeric_key_defaulting [of "parseLines (nonBlankLines ''rate = 10'')" "''rate = 10''"
      "parseLines (nonBlankLines ''rate = 10\<newline>fee = 5'')" "''rate = 10\<newline>fee = 5''" "''Rates''"]
  by (simp add: nonBlankLines_def parseLines_def parseInto_def
      parseLine_def trim_def isWhiteSpace_def mapKeys_def orZero_def mapGet_def)

section \<open>Properties of the section list\<close>

subsection \<open>Page Fallback Segmenter\<close>

lemma pageLoop_eq:
  "pageLoop i P acc =
     acc @ map (\<lambda>n. \<lparr>title = ''Page '' @ numberToString n, startPage = int n,
                      level = None, hasValidPage = True\<rparr>) [i..<Suc P]"
proof (induction i P acc rule: pageLoop.induct)
  case (1 i P sections)
  show ?case
  proof (cases "i \<le> P")
    case True
    then have "[i..<Suc P] = i # [Suc i..<Suc P]"
      by (simp add: upt_conv_Cons)
    with True 1 show ?thesis
      by (subst pageLoop.simps) simp
  next
    case False
    then show ?thesis
      by (subst pageLoop.simps) simp
  qed
qed

lemma extractFrom_titles: "map (ex_title \<circ> fst) (extractFrom pdf secs) = map title secs"
  by (induction pdf secs rule: extractFrom.induct) (auto split: prod.splits)

lemma extractedSections_titles: "map ex_title (extractedSections pdf secs) = map title secs"
  using extractFrom_titles [of pdf secs] by (simp add: extractedSections_def)

lemma outlineSections_empty:
  "getOutline pdf = None \<or> getOutline pdf = Some [] \<or>
     (\<exists>outline. getOutline pdf = Some outline \<and> processOutline pdf 0 outline [] = [])
   \<Longrightarrow> outlineSections pdf = []"
  by (auto simp: outlineSections_def)

text \<open>
  Claim C9. A document whose outline is \<open>null\<close> or empty, or whose traversal emits no
  section, gets one section for each of its \<open>P\<close> pages: the \<open>n\<close>-th is titled
  \<open>Page n\<close>, starts at page \<open>n\<close> and has a valid page, and the mode is \<open>PAGES\<close>; the
  extracted sections returned by \<open>parsePdf\<close> carry the same titles. With three pages the
  titles are \<open>Page 1\<close>, \<open>Page 2\<close>, \<open>Page 3\<close>.
\<close>

theorem fallback_one_section_per_page:
  assumes "getOutline pdf = None \<or> getOutline pdf = Some [] \<or>
     (\<exists>outline. getOutline pdf = Some outline \<and> processOutline pdf 0 outline [] = [])"
  shows "finalSections pdf =
           (map (\<lambda>n. \<lparr>title = ''Page '' @ numberToString n, startPage = int n,
                        level = None, hasValidPage = True\<rparr>) [1..<Suc (numPages pdf)], PAGES)
    \<and> length (fst (finalSections pdf)) = numPages pdf
    \<and> snd (parsePdf (Some pdf)) = PAGES
    \<and> map ex_title (fst (parsePdf (Some pdf))) =
           map (\<lambda>n. ''Page '' @ numberToString n) [1..<Suc (numPages pdf)]
    \<and> (numPages pdf = 3 \<longrightarrow>
           map title (fst (finalSections pdf)) = [''Page 1'', ''Page 2'', ''Page 3''])"
proof -
  have e: "outlineSections pdf = []"
    using assms by (rule outlineSections_empty)
  have f: "finalSections pdf =
           (map (\<lambda>n. \<lparr>title = ''Page '' @ numberToString n, startPage = int n,
                        level = None, hasValidPage = True\<rparr>) [1..<Suc (numPages pdf)], PAGES)"
    by (simp add: finalSections_def e pageLoop_eq)
  have p: "parsePdf (Some pdf) = (extractedSections pdf (fst (finalSections pdf)), PAGES)"
    by (simp add: parsePdf_def f)
  have t: "map ex_title (fst (parsePdf (Some pdf))) =
           map (\<lambda>n. ''Page '' @ numberToString n) [1..<Suc (numPages pdf)]"
    by (simp add: p extractedSections_titles f comp_def)
  have three: "map title (fst (finalSections pdf)) = [''Page 1'', ''Page 2'', ''Page 3'']"
    if "numPages pdf = 3"
  proof -
    have "[1..<Suc 3] = [1, 2, 3]" by (simp add: upt_rec)
    then show ?thesis
      using that by (simp add: f comp_def numberToString.simps digitChar_def)
  qed
  show ?thesis
    using f p t three by simp
qed

theorem fallback_one_section_per_page_witness:
  "getOutline threePagePdf = Some []
   \<and> fst (finalSections threePagePdf) =
       [\<lparr>title = ''Page 1'', startPage = 1, level = None, hasValidPage = True\<rparr>,
        \<lparr>title = ''Page 2'', startPage = 2, level = None, hasValidPage = True\<rparr>,
        \<lparr>title = ''Page 3'', startPage = 3, level = None, hasValidPage = True\<rparr>]
   \<and> snd (parsePdf (Some threePagePdf)) = PAGES"
proof -
  have "[1..<Suc 3] = [1, 2, 3]" by (simp add: upt_rec)
  then show ?thesis
    using fallback_one_section_per_page [of threePagePdf]
    by (simp add: threePagePdf_def numberToString.simps digitChar_def)
qed

subsection \<open>Outline traversal\<close>

lemmas resolve_defs = emitSection_def resolvePageNum_def destTruthy_def resolveDestination_def
  alternativeMethod_def firstElement_def trim_def isWhiteSpace_def

lemma resolveDestination_pos: "resolveDestination pdf d = Fulfils (Some p) \<Longrightarrow> 1 \<le> p"
  by (auto simp: resolveDestination_def split: promise.splits option.splits)

lemma alternativeMethod_pos: "alternativeMethod pdf d = Some p \<Longrightarrow> 1 \<le> p"
  by (auto simp: alternativeMethod_def split: js_dest.splits promise.splits)

lemma resolvePageNum_pos: "resolvePageNum pdf dst = Some p \<Longrightarrow> 1 \<le> p"
  by (auto simp: resolvePageNum_def split: option.splits if_splits promise.splits
      dest: resolveDestination_pos alternativeMethod_pos)

lemma emitSection_inv:
  assumes "\<forall>s \<in> set secs. 1 \<le> startPage s \<and> hasValidPage s"
    and "\<And>p. pn = Some p \<Longrightarrow> 1 \<le> p"
  shows "\<forall>s \<in> set (emitSection lvl ttl pn secs). 1 \<le> startPage s \<and> hasValidPage s"
  using assms by (cases pn) (auto simp: emitSection_def Let_def)

lemma processOutline_inv:
  "\<forall>s \<in> set secs. 1 \<le> startPage s \<and> hasValidPage s \<Longrightarrow>
   \<forall>s \<in> set (processOutline pdf lvl its secs). 1 \<le> startPage s \<and> hasValidPage s"
proof (induction pdf lvl its secs rule: processOutline.induct)
  case (1 pdf lvl sections)
  then show ?case by simp
next
  case (2 pdf lvl ttl dst kids rest sections)
  let ?s1 = "emitSection lvl ttl (resolvePageNum pdf dst) sections"
  let ?s2 = "if length kids > 0 then processOutline pdf (lvl + 1) kids ?s1 else ?s1"
  have i1: "\<forall>s \<in> set ?s1. 1 \<le> startPage s \<and> hasValidPage s"
    using "2.prems" by (rule emitSection_inv) (rule resolvePageNum_pos)
  have i2: "\<forall>s \<in> set ?s2. 1 \<le> startPage s \<and> hasValidPage s"
  proof (cases "length kids > 0")
    case True
    then show ?thesis using "2.IH"(1) [OF refl True i1] by simp
  next
    case False
    then show ?thesis using i1 by simp
  qed
  have "\<forall>s \<in> set (processOutline pdf lvl rest ?s2). 1 \<le> startPage s \<and> hasValidPage s"
    using "2.IH"(2) [OF refl refl i2] .
  then show ?case by (simp add: Let_def)
qed

lemma emitSection_estimated:
  "trim ttl \<noteq> [] \<Longrightarrow>
     emitSection lvl ttl None secs =
       secs @ [\<lparr>title = trim ttl, startPage = int (length secs) + 1, level = Some lvl,
                 hasValidPage = True\<rparr>]"
  by (auto simp: emitSection_def Let_def trim_def)

text \<open>
  Claim C1, on the code. For an outline item with a non-empty trimmed title whose
  destination resolves to no page, the traversal emits a section with the provisional
  start page (sections so far) + 1, as the claim says, but with \<open>hasValidPage = True\<close>:
  \<open>pageNum\<close> is overwritten with the estimate before \<open>pageNum !== null\<close> is evaluated.
  The handler of the outer \<open>try\<close> pushes the same section with \<open>hasValidPage = False\<close>.
  Every section the traversal of an outline emits has \<open>hasValidPage = True\<close>, resolved
  or not.
\<close>

theorem estimated_page_flagged_valid:
  assumes "resolvePageNum pdf dst = None" and "trim ttl \<noteq> []"
  shows "processOutline pdf lvl [OutlineItem ttl dst []] secs =
           secs @ [\<lparr>title = trim ttl, startPage = int (length secs) + 1, level = Some lvl,
                     hasValidPage = True\<rparr>]
    \<and> emitAfterError lvl ttl secs =
           secs @ [\<lparr>title = trim ttl, startPage = int (length secs) + 1, level = Some lvl,
                     hasValidPage = False\<rparr>]
    \<and> list_all hasValidPage (processOutline pdf 0 outline [])"
proof -
  have "\<forall>s \<in> set (processOutline pdf 0 outline []). 1 \<le> startPage s \<and> hasValidPage s"
    by (rule processOutline_inv) simp
  then have "list_all hasValidPage (processOutline pdf 0 outline [])"
    by (simp add: list_all_iff)
  then show ?thesis
    using assms by (auto simp: emitSection_estimated emitAfterError_def trim_def)
qed

theorem estimated_page_flagged_valid_witness:
  "resolvePageNum unresolvedPdf None = None
   \<and> processOutline unresolvedPdf 0 [OutlineItem ''Intro'' None []] [] =
       [\<lparr>title = ''Intro'', startPage = 1, level = Some 0, hasValidPage = True\<rparr>]
   \<and> emitAfterError 0 ''Intro'' [] =
       [\<lparr>title = ''Intro'', startPage = 1, level = Some 0, hasValidPage = False\<rparr>]"
  using estimated_page_flagged_valid [of unresolvedPdf None "''Intro''" 0 "[]" "[]"]
  by (simp add: resolvePageNum_def trim_def isWhiteSpace_def)

subsection \<open>Deduplication and page assignment\<close>

lemma mathCeilDiv_div: "mathCeilDiv a b = - ((- a) div b)"
  by (simp add: mathCeilDiv_def ceiling_divide_eq_div)

lemma mathCeilDiv_nonneg: "0 \<le> a \<Longrightarrow> 0 \<le> b \<Longrightarrow> 0 \<le> mathCeilDiv a b"
proof -
  assume "0 \<le> a" "0 \<le> b"
  then have "0 \<le> real_of_int a / real_of_int b" by simp
  then have "- 1 < real_of_int a / real_of_int b" by linarith
  then show ?thesis by (simp add: mathCeilDiv_def)
qed

lemma mathCeilDiv_pos: "1 \<le> a \<Longrightarrow> 1 \<le> b \<Longrightarrow> 1 \<le> mathCeilDiv a b"
proof -
  assume "1 \<le> a" "1 \<le> b"
  then have "0 < real_of_int a / real_of_int b" by simp
  then have "0 < mathCeilDiv a b" by (simp add: mathCeilDiv_def)
  then show ?thesis by linarith
qed

lemma startPage_spreadInvalid:
  "map startPage (spreadInvalid P xs) =
     map (\<lambda>i. mathCeilDiv (int P) (int (length xs) + 1) * (int i + 1)) [0..<length xs]"
proof -
  have "map startPage (spreadInvalid P xs) =
      map ((\<lambda>i. mathCeilDiv (int P) (int (length xs) + 1) * (int i + 1)) \<circ> fst) (enumerate 0 xs)"
    by (simp add: spreadInvalid_def case_prod_beta comp_def)
  also have "\<dots> = map (\<lambda>i. mathCeilDiv (int P) (int (length xs) + 1) * (int i + 1))
                      (map fst (enumerate 0 xs))"
    by (simp only: map_map)
  finally show ?thesis by simp
qed

lemma startPage_spreadAll:
  "map startPage (spreadAll P xs) =
     map (\<lambda>i. mathCeilDiv (int P) (int (length xs)) * int i + 1) [0..<length xs]"
proof -
  have "map startPage (spreadAll P xs) =
      map ((\<lambda>i. mathCeilDiv (int P) (int (length xs)) * int i + 1) \<circ> fst) (enumerate 0 xs)"
    by (simp add: spreadAll_def case_prod_beta comp_def)
  also have "\<dots> = map (\<lambda>i. mathCeilDiv (int P) (int (length xs)) * int i + 1)
                      (map fst (enumerate 0 xs))"
    by (simp only: map_map)
  finally show ?thesis by simp
qed

lemma sorted_map_upt: "(\<And>i j. i \<le> j \<Longrightarrow> g i \<le> (g j :: int)) \<Longrightarrow> sorted (map g [0..<n])"
  by (rule sorted_map_mono) (auto simp: mono_on_def)

lemma sorted_spreadInvalid: "sorted (map startPage (spreadInvalid P xs))"
  unfolding startPage_spreadInvalid
  by (rule sorted_map_upt) (simp add: mult_left_mono mathCeilDiv_nonneg)

lemma sorted_spreadAll: "sorted (map startPage (spreadAll P xs))"
  unfolding startPage_spreadAll
  by (rule sorted_map_upt) (simp add: mult_left_mono mathCeilDiv_nonneg)

lemma sorted_assignPages: "sorted (map startPage (assignPages P xs))"
  by (simp add: assignPages_def Let_def sorted_spreadAll)

lemma title_spreadInvalid: "map title (spreadInvalid P xs) = map title xs"
proof -
  have "map title (spreadInvalid P xs) = map (title \<circ> snd) (enumerate 0 xs)"
    by (simp add: spreadInvalid_def case_prod_beta comp_def)
  also have "\<dots> = map title (map snd (enumerate 0 xs))"
    by (simp only: map_map)
  finally show ?thesis by simp
qed

lemma valid_spreadInvalid: "map hasValidPage (spreadInvalid P xs) = map hasValidPage xs"
proof -
  have "map hasValidPage (spreadInvalid P xs) = map (hasValidPage \<circ> snd) (enumerate 0 xs)"
    by (simp add: spreadInvalid_def case_prod_beta comp_def)
  also have "\<dots> = map hasValidPage (map snd (enumerate 0 xs))"
    by (simp only: map_map)
  finally show ?thesis by simp
qed

lemma length_spreadInvalid: "length (spreadInvalid P xs) = length xs"
  by (simp add: spreadInvalid_def)

lemma nth_startPage_spreadInvalid:
  "i < length xs \<Longrightarrow>
     startPage (spreadInvalid P xs ! i) = mathCeilDiv (int P) (int (length xs) + 1) * (int i + 1)"
  by (simp add: spreadInvalid_def nth_enumerate_eq)

lemma filter_invalid_spread:
  assumes "\<forall>s \<in> set xs. \<not> hasValidPage s"
  shows "filter (\<lambda>s. \<not> hasValidPage s) (spreadInvalid P xs) = spreadInvalid P xs"
    and "filter hasValidPage (spreadInvalid P xs) = []"
proof -
  have "\<forall>b \<in> set (map hasValidPage (spreadInvalid P xs)). \<not> b"
    unfolding valid_spreadInvalid using assms by simp
  then have a: "\<forall>s \<in> set (spreadInvalid P xs). \<not> hasValidPage s"
    by simp
  then show "filter (\<lambda>s. \<not> hasValidPage s) (spreadInvalid P xs) = spreadInvalid P xs"
    by (simp add: filter_id_conv)
  from a show "filter hasValidPage (spreadInvalid P xs) = []"
    by (simp add: filter_empty_conv)
qed

lemma invalid_of_assignPages:
  assumes "filter hasValidPage secs \<noteq> []"
  shows "filter (\<lambda>s. \<not> hasValidPage s) (assignPages P secs) =
           spreadInvalid P (filter (\<lambda>s. \<not> hasValidPage s) secs)"
proof -
  let ?inv = "filter (\<lambda>s. \<not> hasValidPage s) secs"
  have i: "\<forall>s \<in> set ?inv. \<not> hasValidPage s" by simp
  have "filter (\<lambda>s. \<not> hasValidPage s) (assignPages P secs) =
      sort_key startPage (filter (\<lambda>s. \<not> hasValidPage s)
         (sort_key startPage (filter hasValidPage secs) @ spreadInvalid P ?inv))"
    using assms by (simp add: assignPages_def Let_def filter_sort)
  also have "\<dots> = sort_key startPage (spreadInvalid P ?inv)"
    by (simp add: filter_sort filter_invalid_spread(1) [OF i])
  also have "\<dots> = spreadInvalid P ?inv"
    by (rule sort_key_id_if_sorted) (rule sorted_spreadInvalid)
  finally show ?thesis .
qed

text \<open>
  Claim C3. Let \<open>unres\<close> be the unresolved sections of the deduplicated list, in
  discovery order, and let there be a resolved section. Then the unresolved sections of
  the list \<open>assignPages\<close> returns are, in the same order and with the same titles, those
  of \<open>unres\<close>, the one at 1-based rank \<open>r\<close> with page
  \<open>ceil(P / (number of unresolved + 1)) * r\<close>; with four of them and \<open>P = 20\<close> the pages
  are 4, 8, 12 and 16.
\<close>

theorem estimation_spread:
  assumes "unres = filter (\<lambda>s. \<not> hasValidPage s) secs" and "filter hasValidPage secs \<noteq> []"
  shows "filter (\<lambda>s. \<not> hasValidPage s) (assignPages P secs) = spreadInvalid P unres
    \<and> map title (spreadInvalid P unres) = map title unres
    \<and> (\<forall>r. 1 \<le> r \<and> r \<le> length unres \<longrightarrow>
          startPage (spreadInvalid P unres ! (r - 1)) = \<lceil>real P / real (length unres + 1)\<rceil> * int r)
    \<and> (length unres = 4 \<longrightarrow> map startPage (spreadInvalid 20 unres) = [4, 8, 12, 16])"
proof (intro conjI allI impI)
  show "filter (\<lambda>s. \<not> hasValidPage s) (assignPages P secs) = spreadInvalid P unres"
    unfolding assms(1) using assms(2) by (rule invalid_of_assignPages)
  show "map title (spreadInvalid P unres) = map title unres"
    by (rule title_spreadInvalid)
  show "startPage (spreadInvalid P unres ! (r - 1)) = \<lceil>real P / real (length unres + 1)\<rceil> * int r"
    if "1 \<le> r \<and> r \<le> length unres" for r
  proof -
    have "r - 1 < length unres" "int (r - 1) + 1 = int r"
      using that by auto
    then show ?thesis
      by (simp add: nth_startPage_spreadInvalid mathCeilDiv_def add.commute)
  qed
  show "map startPage (spreadInvalid 20 unres) = [4, 8, 12, 16]" if "length unres = 4"
  proof -
    have "[0..<4] = [0, 1, 2, 3::nat]" by (simp add: upt_rec)
    then show ?thesis
      using that by (simp add: startPage_spreadInvalid mathCeilDiv_div)
  qed
qed

theorem estimation_spread_witness:
  "filter hasValidPage mixedSections \<noteq> []
   \<and> length (filter (\<lambda>s. \<not> hasValidPage s) mixedSections) = 4
   \<and> map (\<lambda>s. (title s, startPage s)) (filter (\<lambda>s. \<not> hasValidPage s) (assignPages 20 mixedSections))
       = [(''B'', 4), (''C'', 8), (''D'', 12), (''E'', 16)]"
  using estimation_spread [of "filter (\<lambda>s. \<not> hasValidPage s) mixedSections" mixedSections 20]
  by (simp add: mixedSections_def spreadInvalid_def mathCeilDiv_div)

lemma set_dedupSections: "set (dedupSections xs) \<subseteq> set xs"
proof
  fix s assume "s \<in> set (dedupSections xs)"
  then obtain i where "(i, s) \<in> set (enumerate 0 xs)"
    by (auto simp: dedupSections_def)
  then show "s \<in> set xs"
    by (auto simp: in_set_enumerate_eq)
qed

lemma assignPages_all_valid:
  assumes "\<forall>s \<in> set xs. hasValidPage s"
  shows "assignPages P xs = sort_key startPage xs"
proof -
  have v: "filter hasValidPage xs = xs" and i: "filter (\<lambda>s. \<not> hasValidPage s) xs = []"
    using assms by (simp_all add: filter_id_conv filter_empty_conv)
  show ?thesis
  proof (cases "xs = []")
    case True
    then show ?thesis by (simp add: assignPages_def spreadAll_def)
  next
    case False
    then show ?thesis
      by (simp add: assignPages_def Let_def v i spreadInvalid_def sort_key_id_if_sorted)
  qed
qed

lemma outlineSections_sorted_dedup:
  "outlineSections pdf =
     (case getOutline pdf of
        None \<Rightarrow> []
      | Some outline \<Rightarrow> sort_key startPage (dedupSections (processOutline pdf 0 outline [])))"
proof (cases "getOutline pdf")
  case None
  then show ?thesis by (simp add: outlineSections_def)
next
  case (Some outline)
  have "\<forall>s \<in> set (processOutline pdf 0 outline []). 1 \<le> startPage s \<and> hasValidPage s"
    by (rule processOutline_inv) simp
  then have "\<forall>s \<in> set (dedupSections (processOutline pdf 0 outline [])). hasValidPage s"
    using set_dedupSections by blast
  then have a: "assignPages (numPages pdf) (dedupSections (processOutline pdf 0 outline []))
      = sort_key startPage (dedupSections (processOutline pdf 0 outline []))"
    by (rule assignPages_all_valid)
  have d: "dedupSections [] = []" by (simp add: dedupSections_def)
  show ?thesis
  proof (cases "outline = []")
    case True
    with Some show ?thesis by (simp add: outlineSections_def d)
  next
    case False
    with Some a show ?thesis
      by (cases "processOutline pdf 0 outline [] = []") (simp_all add: outlineSections_def Let_def d)
  qed
qed

lemma outlineSections_inv:
  "\<forall>s \<in> set (outlineSections pdf). 1 \<le> startPage s \<and> hasValidPage s"
proof (cases "getOutline pdf")
  case None
  then show ?thesis by (simp add: outlineSections_def)
next
  case (Some outline)
  have "\<forall>s \<in> set (processOutline pdf 0 outline []). 1 \<le> startPage s \<and> hasValidPage s"
    by (rule processOutline_inv) simp
  then show ?thesis
    using set_dedupSections Some by (auto simp: outlineSections_sorted_dedup)
qed

lemma outlineSections_sorted: "sorted (map startPage (outlineSections pdf))"
  by (simp add: outlineSections_sorted_dedup split: option.splits)

lemma sorted_clamp:
  "sorted (map startPage xs) \<Longrightarrow> sorted (map startPage (map (\<lambda>s. s\<lparr>startPage := min (startPage s) P\<rparr>) xs))"
  by (induction xs) (auto simp: min_def)

subsection \<open>Section Text Extractor\<close>

lemma readPages_eq:
  "readPages pdf j e acc =
     (fst acc @ concat (map (pageText pdf) (inRangePages (numPages pdf) j e)),
      snd acc @ inRangePages (numPages pdf) j e)"
proof (induction pdf j e acc rule: readPages.induct)
  case (1 pdf j e acc)
  show ?case
  proof (cases "j \<le> e")
    case True
    then have u: "[j..e] = j # [j + 1..e]"
      by (simp add: upto_rec1)
    show ?thesis
    proof (cases "j > int (numPages pdf) \<or> j < 1")
      case skip: True
      with True 1(1) u show ?thesis
        by (subst readPages.simps) (auto simp: inRangePages_def)
    next
      case read: False
      with True 1(2) u show ?thesis
        by (subst readPages.simps) (auto simp: inRangePages_def)
    qed
  next
    case False
    then show ?thesis
      by (subst readPages.simps) (simp add: inRangePages_def)
  qed
qed

lemma extractFrom_single:
  "extractFrom pdf [s] =
     [(\<lparr>ex_title = title s,
        ex_text = concat (map (pageText pdf)
                    (inRangePages (numPages pdf) (startPage s) (int (numPages pdf))))\<rparr>,
       inRangePages (numPages pdf) (startPage s) (int (numPages pdf)))]"
  by (simp add: readPages_eq)

lemma extractFrom_step:
  "extractFrom pdf (s # s' # rest) =
     (\<lparr>ex_title = title s,
       ex_text = concat (map (pageText pdf)
                   (inRangePages (numPages pdf) (startPage s) (startPage s' - 1)))\<rparr>,
      inRangePages (numPages pdf) (startPage s) (startPage s' - 1))
     # extractFrom pdf (s' # rest)"
  by (simp add: readPages_eq)

declare extractFrom.simps(2) [simp del] extractFrom.simps(3) [simp del]

lemma extractFrom_length: "length (extractFrom pdf secs) = length secs"
  by (induction secs rule: induct_list012) (simp_all add: extractFrom_single extractFrom_step)

lemma extractFrom_nth:
  "i < length secs \<Longrightarrow>
     extractFrom pdf secs ! i =
       (\<lparr>ex_title = title (secs ! i),
         ex_text = concat (map (pageText pdf)
                     (inRangePages (numPages pdf) (startPage (secs ! i)) (endPage (numPages pdf) secs i)))\<rparr>,
        inRangePages (numPages pdf) (startPage (secs ! i)) (endPage (numPages pdf) secs i))"
proof (induction secs arbitrary: i rule: induct_list012)
  case 1
  then show ?case by simp
next
  case (2 s)
  then show ?case by (simp add: extractFrom_single endPage_def)
next
  case (3 s s' rest)
  show ?case
  proof (cases i)
    case 0
    then show ?thesis by (simp add: extractFrom_step endPage_def)
  next
    case (Suc k)
    with 3 show ?thesis by (simp add: extractFrom_step endPage_def)
  qed
qed

lemma inRange_join:
  "a \<le> b \<Longrightarrow> b \<le> int P \<Longrightarrow>
     inRangePages P a (b - 1) @ inRangePages P b (int P) = inRangePages P a (int P)"
  using upto_split1 [of a b "int P"] by (simp add: inRangePages_def)

lemma inRange_all: "1 \<le> a \<Longrightarrow> inRangePages P a (int P) = [a..int P]"
  by (auto simp: inRangePages_def intro!: filter_True)

lemma fetched_concat:
  "secs \<noteq> [] \<Longrightarrow> sorted (map startPage secs) \<Longrightarrow> \<forall>s \<in> set secs. startPage s \<le> int (numPages pdf)
   \<Longrightarrow> concat (map snd (extractFrom pdf secs)) =
         inRangePages (numPages pdf) (startPage (hd secs)) (int (numPages pdf))"
proof (induction secs rule: induct_list012)
  case 1
  then show ?case by simp
next
  case (2 s)
  then show ?case by (simp add: extractFrom_single)
next
  case (3 s s' rest)
  then have "concat (map snd (extractFrom pdf (s' # rest))) =
      inRangePages (numPages pdf) (startPage s') (int (numPages pdf))"
    by simp
  moreover have "startPage s \<le> startPage s'" "startPage s' \<le> int (numPages pdf)"
    using 3 by auto
  ultimately show ?case
    by (simp add: extractFrom_step inRange_join)
qed

lemma unresolved_final:
  "finalSections unresolvedPdf =
     ([\<lparr>title = ''Intro'', startPage = 1, level = Some 0, hasValidPage = True\<rparr>], TOC)"
  by (simp add: finalSections_def outlineSections_def unresolvedPdf_def resolve_defs
      dedupSections_def assignPages_def spreadInvalid_def Let_def)

lemma gap_final:
  "finalSections gapPdf =
     ([\<lparr>title = ''Rates'', startPage = 2, level = Some 0, hasValidPage = True\<rparr>], TOC)"
  by (simp add: finalSections_def outlineSections_def gapPdf_def resolve_defs
      dedupSections_def assignPages_def spreadInvalid_def Let_def)

lemma upto_1_2: "[1..2] = [1, 2::int]" "[2..3] = [2, 3::int]"
  by (simp_all add: upto_rec1)

lemma finalSections_shape:
  assumes "1 \<le> numPages pdf" and "finalSections pdf = (secs, m)"
  shows "secs \<noteq> []"
    and "sorted (map startPage secs)"
    and "\<forall>s \<in> set secs. 1 \<le> startPage s \<and> startPage s \<le> int (numPages pdf)"
    and "m = PAGES \<longrightarrow> startPage (hd secs) = 1"
proof -
  show "secs \<noteq> []"
    using assms by (auto simp: finalSections_def Let_def pageLoop_eq split: if_splits)
  show "sorted (map startPage secs)"
  proof (cases "outlineSections pdf = []")
    case True
    then have "map startPage secs = map int [1..<Suc (numPages pdf)]"
      using assms(2) by (auto simp: finalSections_def pageLoop_eq comp_def)
    then show ?thesis
      by (simp add: sorted_map_mono mono_on_def del: upt_Suc)
  next
    case False
    then have "secs = map (\<lambda>s. s\<lparr>startPage := min (startPage s) (int (numPages pdf))\<rparr>) (outlineSections pdf)"
      using assms(2) by (auto simp: finalSections_def)
    then show ?thesis
      using sorted_clamp [OF outlineSections_sorted] by simp
  qed
  show "\<forall>s \<in> set secs. 1 \<le> startPage s \<and> startPage s \<le> int (numPages pdf)"
    using assms outlineSections_inv [of pdf]
    by (auto simp: finalSections_def Let_def pageLoop_eq split: if_splits)
  show "m = PAGES \<longrightarrow> startPage (hd secs) = 1"
  proof
    assume "m = PAGES"
    moreover have "[1..<Suc (numPages pdf)] = 1 # [Suc 1..<Suc (numPages pdf)]"
      using assms(1) by (simp add: upt_conv_Cons del: upt_Suc)
    ultimately show "startPage (hd secs) = 1"
      using assms(2) by (auto simp: finalSections_def Let_def pageLoop_eq simp del: upt_Suc split: if_splits)
  qed
qed

text \<open>
  Claim C4, as the code has it. For a document with at least one page the final section
  list is not empty and its first section starts at a page of the document; the pages
  fetched for the sections, taken in section order, are exactly the pages from the first
  section's start page to the last page, each once. After the Page Fallback Segmenter
  these are all pages \<open>1..P\<close>.
\<close>

theorem pages_covered_from_first_section:
  assumes "1 \<le> numPages pdf" and "finalSections pdf = (secs, m)"
  shows "secs \<noteq> [] \<and> 1 \<le> startPage (hd secs)
    \<and> concat (pagesFetched pdf secs) = [startPage (hd secs)..int (numPages pdf)]
    \<and> distinct (concat (pagesFetched pdf secs))
    \<and> (m = PAGES \<longrightarrow> concat (pagesFetched pdf secs) = [1..int (numPages pdf)])"
proof -
  note sh = finalSections_shape [OF assms]
  have h: "1 \<le> startPage (hd secs)"
    using sh(1) sh(3) by (cases secs) auto
  have "concat (pagesFetched pdf secs) =
      inRangePages (numPages pdf) (startPage (hd secs)) (int (numPages pdf))"
    unfolding pagesFetched_def using sh by (intro fetched_concat) auto
  then have c: "concat (pagesFetched pdf secs) = [startPage (hd secs)..int (numPages pdf)]"
    using h by (simp add: inRange_all)
  show ?thesis
    using sh(1) h c sh(4) by simp
qed

theorem pages_covered_from_first_section_witness:
  "1 \<le> numPages gapPdf
   \<and> startPage (hd (fst (finalSections gapPdf))) = 2
   \<and> concat (pagesFetched gapPdf (fst (finalSections gapPdf))) = [2, 3]"
  using pages_covered_from_first_section [of gapPdf "fst (finalSections gapPdf)" "snd (finalSections gapPdf)"]
  by (simp add: gap_final) (simp add: gapPdf_def upto_1_2)





text \<open>
  Claim C4 as it is worded fails: with one outline item that resolves to page 2 of a
  document of three pages, page 1 is fetched for no section.
\<close>

theorem page_gap_counterexample:
  "pagesFetched gapPdf (fst (finalSections gapPdf)) = [[2, 3]]
   \<and> 1 \<notin> set (concat (pagesFetched gapPdf (fst (finalSections gapPdf))))"
  by (simp add: gap_final pagesFetched_def extractFrom_single inRangePages_def upto_1_2)
     (simp add: gapPdf_def)

text \<open>
  Claim C5, as the code has it. The section at index \<open>i\<close> keeps its title, and its text
  is the texts of the pages from its start page to its end page that lie in \<open>1..P\<close>,
  appended one after the other with nothing between two pages; the single spaces are
  those between the text items inside one page.
\<close>

theorem section_text_concatenates_pages:
  assumes "i < length secs"
  shows "ex_title (extractedSections pdf secs ! i) = title (secs ! i)
    \<and> ex_text (extractedSections pdf secs ! i) =
        concat (map (pageText pdf)
          (filter (\<lambda>j. 1 \<le> j \<and> j \<le> int (numPages pdf))
             [startPage (secs ! i)..
              (if i + 1 < length secs then startPage (secs ! (i + 1)) - 1 else int (numPages pdf))]))
    \<and> pageText pdf j = joinWith '' '' (pageItems pdf j)"
proof -
  have "(\<lambda>j. \<not> (j > int (numPages pdf) \<or> j < 1)) = (\<lambda>j. 1 \<le> j \<and> j \<le> int (numPages pdf))"
    by auto
  then show ?thesis
    using assms extractFrom_nth [OF assms, of pdf]
    by (simp add: extractedSections_def extractFrom_length inRangePages_def endPage_def pageText_def)
qed

theorem section_text_concatenates_pages_witness:
  "0 < length (fst (finalSections unresolvedPdf))
   \<and> ex_text (extractedSections unresolvedPdf (fst (finalSections unresolvedPdf)) ! 0) = ''x yz''"
  using section_text_concatenates_pages [of 0 "fst (finalSections unresolvedPdf)" unresolvedPdf 1]
  by (simp add: unresolved_final) (simp add: unresolvedPdf_def upto_1_2 pageText_def)

text \<open>
  Claim C5 as it is worded fails: a section over two pages with the texts \<open>x y\<close> and
  \<open>z\<close> gets the text \<open>x yz\<close>, not \<open>x y z\<close>.
\<close>

theorem page_texts_not_spaced_counterexample:
  "fst (parsePdf (Some unresolvedPdf)) = [\<lparr>ex_title = ''Intro'', ex_text = ''x yz''\<rparr>]
   \<and> joinWith '' '' (map (pageText unresolvedPdf) [1, 2]) = ''x y z''
   \<and> map ex_text (fst (parsePdf (Some unresolvedPdf)))
       \<noteq> [joinWith '' '' (map (pageText unresolvedPdf) [1, 2])]"
  by (simp add: parsePdf_def unresolved_final extractedSections_def extractFrom_single
      inRangePages_def)
     (simp add: unresolvedPdf_def upto_1_2 pageText_def)

section \<open>Properties of the export\<close>

lemma foldl_append_rows:
  "foldl (\<lambda>exportData e. exportData @ f e) acc es = acc @ concat (map f es)"
  by (induction es arbitrary: acc) simp_all

lemma buildExportData_concat:
  "buildExportData st = concat (map (entryRows (onlyNumeric st)) (comparisonResult st))"
  by (simp add: buildExportData_def foldl_append_rows)

lemma textRows_nonempty: "parts \<noteq> [] \<Longrightarrow> textRows ttl numeric parts \<noteq> []"
  by (induction ttl numeric parts rule: textRows.induct) auto

lemma compareSection_rows:
  assumes "\<forall>e \<in> set results. \<forall>n. entryRows n e \<noteq> []"
  shows "\<forall>e \<in> set (compareSection diffLines st results ttl). \<forall>n. entryRows n e \<noteq> []"
  using assms by (auto simp: compareSection_def Let_def entryRows_def textRows_nonempty)

lemma foldl_compareSection_rows:
  "\<forall>e \<in> set results. \<forall>n. entryRows n e \<noteq> [] \<Longrightarrow>
   \<forall>e \<in> set (foldl (compareSection diffLines st) results ts). \<forall>n. entryRows n e \<noteq> []"
proof (induction ts arbitrary: results)
  case Nil
  then show ?case by simp
next
  case (Cons t ts)
  show ?case
    using Cons.IH [OF compareSection_rows [OF Cons.prems]] by simp
qed

lemma handleCompare_rows:
  "buildExportData (handleCompare diffLines st) = []
     \<longleftrightarrow> comparisonResult (handleCompare diffLines st) = []"
proof -
  have "\<forall>e \<in> set (comparisonResult (handleCompare diffLines st)). \<forall>n. entryRows n e \<noteq> []"
    using foldl_compareSection_rows [of "[]" diffLines st "combinedSections st"]
    by (simp add: handleCompare_def)
  then show ?thesis
    by (cases "comparisonResult (handleCompare diffLines st)")
       (auto simp: buildExportData_concat)
qed

text \<open>
  Claim C10. When the rows built for the export are empty, \<open>handleExport\<close> returns
  normally, performs no \<open>writeFile\<close>, and the only change to the state is the message
  \<open>No differences to export.\<close> in the \<open>error\<close> field, which the page displays. The
  file is written only when there are rows, and then the state is unchanged. After
  \<open>handleCompare\<close> the rows are empty exactly when the comparison result is.
\<close>

theorem empty_export_reported:
  "(buildExportData st = [] \<longrightarrow>
      handleExport st = (st\<lparr>error := ''No differences to export.''\<rparr>, []))
   \<and> (buildExportData st \<noteq> [] \<longrightarrow>
      handleExport st =
        (st, [WriteFile ''Differences'' (buildExportData st) ''Rate_Comparison_Report.xlsx'']))
   \<and> (buildExportData (handleCompare diffLines st) = []
        \<longleftrightarrow> comparisonResult (handleCompare diffLines st) = [])"
proof (intro conjI impI)
  assume "buildExportData st = []"
  then show "handleExport st = (st\<lparr>error := ''No differences to export.''\<rparr>, [])"
    by (simp add: handleExport_def)
next
  assume "buildExportData st \<noteq> []"
  then show "handleExport st =
        (st, [WriteFile ''Differences'' (buildExportData st) ''Rate_Comparison_Report.xlsx''])"
    by (simp add: handleExport_def Let_def)
next
  show "buildExportData (handleCompare diffLines st) = []
        \<longleftrightarrow> comparisonResult (handleCompare diffLines st) = []"
    by (rule handleCompare_rows)
qed

theorem empty_export_reported_witness:
  "buildExportData numericState = []
   \<and> snd (handleExport numericState) = []
   \<and> error (fst (handleExport numericState)) = ''No differences to export.''
   \<and> comparisonResult (fst (handleExport numericState)) = comparisonResult numericState"
  using empty_export_reported [of numericState "\<lambda>a b. []"]
  by (simp add: numericState_def buildExportData_def)

subsection \<open>Rows of a text comparison\<close>

lemma textRows_paired:
  "\<forall>p \<in> set parts. added p \<or> removed p \<Longrightarrow> textRows ttl numeric parts = spec_exportRows ttl numeric parts"
  by (induction ttl numeric parts rule: textRows.induct) auto

lemma compareSection_changes:
  assumes "\<forall>e \<in> set results. \<forall>chs. changes e = Some chs \<longrightarrow> (\<forall>p \<in> set chs. added p \<or> removed p)"
  shows "\<forall>e \<in> set (compareSection diffLines st results ttl).
           \<forall>chs. changes e = Some chs \<longrightarrow> (\<forall>p \<in> set chs. added p \<or> removed p)"
  using assms by (auto simp: compareSection_def Let_def)

lemma foldl_compareSection_changes:
  "\<forall>e \<in> set results. \<forall>chs. changes e = Some chs \<longrightarrow> (\<forall>p \<in> set chs. added p \<or> removed p) \<Longrightarrow>
   \<forall>e \<in> set (foldl (compareSection diffLines st) results ts).
           \<forall>chs. changes e = Some chs \<longrightarrow> (\<forall>p \<in> set chs. added p \<or> removed p)"
proof (induction ts arbitrary: results)
  case Nil
  then show ?case by simp
next
  case (Cons t ts)
  show ?case
    using Cons.IH [OF compareSection_changes [OF Cons.prems]] by simp
qed

lemma handleCompare_changes:
  "\<forall>e \<in> set (comparisonResult (handleCompare diffLines st)).
      \<forall>chs. changes e = Some chs \<longrightarrow> (\<forall>p \<in> set chs. added p \<or> removed p)"
  using foldl_compareSection_changes [of "[]" diffLines st "combinedSections st"]
  by (simp add: handleCompare_def)

lemma compareSection_text:
  assumes "\<not> onlyNumeric st"
  shows "compareSection diffLines st results ttl =
           results @
             (if selectedSections st ttl = Some True \<and> storedChanges diffLines st ttl \<noteq> []
              then [\<lparr>entryTitle = ttl, changes = Some (storedChanges diffLines st ttl),
                      numericChanges = None\<rparr>]
              else [])"
  using assms by (simp add: compareSection_def storedChanges_def Let_def)

lemma rows_foldl_compareSection:
  assumes "\<not> onlyNumeric st"
  shows "concat (map (entryRows n) (foldl (compareSection diffLines st) results ts)) =
           concat (map (entryRows n) results) @
           concat (map (\<lambda>t. textRows t n (storedChanges diffLines st t))
                     (filter (\<lambda>t. selectedSections st t = Some True) ts))"
proof (induction ts arbitrary: results)
  case Nil
  then show ?case by simp
next
  case (Cons t ts)
  have "concat (map (entryRows n) (compareSection diffLines st results t)) =
      concat (map (entryRows n) results) @
        (if selectedSections st t = Some True then textRows t n (storedChanges diffLines st t) else [])"
    by (cases "storedChanges diffLines st t = []")
       (simp_all add: compareSection_text [OF assms] entryRows_def)
  then show ?case
    using Cons.IH [of "compareSection diffLines st results t"] by simp
qed

lemma storedChanges_changed: "\<forall>p \<in> set (storedChanges diffLines st t). added p \<or> removed p"
  by (simp add: storedChanges_def)

lemma exported_text_rows:
  assumes "\<not> onlyNumeric st"
  shows "buildExportData (handleCompare diffLines st) =
           concat (map (\<lambda>t. spec_exportRows t False (storedChanges diffLines st t))
                     (filter (\<lambda>t. selectedSections st t = Some True) (combinedSections st)))"
proof -
  have "buildExportData (handleCompare diffLines st) =
      concat (map (entryRows False) (foldl (compareSection diffLines st) [] (combinedSections st)))"
    using assms by (simp add: buildExportData_concat handleCompare_def)
  also have "\<dots> = concat (map (\<lambda>t. textRows t False (storedChanges diffLines st t))
                     (filter (\<lambda>t. selectedSections st t = Some True) (combinedSections st)))"
    by (simp add: rows_foldl_compareSection [OF assms])
  also have "\<dots> = concat (map (\<lambda>t. spec_exportRows t False (storedChanges diffLines st t))
                     (filter (\<lambda>t. selectedSections st t = Some True) (combinedSections st)))"
    by (simp add: textRows_paired [OF storedChanges_changed])
  finally show ?thesis .
qed

text \<open>
  Claim C8, as the code has it. \<open>handleCompare\<close> stores for a section only the added
  and removed parts of the diff, and \<open>handleExport\<close> walks that stored stream: on it the
  rows are those of the specification's pairing, so a removed part directly followed in
  the stored stream by an added part gives one row with both values, also when unchanged
  parts stood between the two in the diff. In full-text mode the rows exported after a
  comparison are, section by section in the order of the selected titles, the pairing of
  the stored parts. The stream removed \<open>A\<close>, added \<open>B\<close>, removed \<open>C\<close> gives two rows,
  old \<open>A\<close> with new \<open>B\<close>, then old \<open>C\<close> with an empty new value.
\<close>

theorem export_rows_pairing:
  "((\<forall>p \<in> set parts. added p \<or> removed p) \<longrightarrow>
      textRows ttl numeric parts = spec_exportRows ttl numeric parts)
   \<and> (\<forall>e \<in> set (comparisonResult (handleCompare diffLines st)).
        \<forall>chs. changes e = Some chs \<longrightarrow> (\<forall>p \<in> set chs. added p \<or> removed p))
   \<and> (\<not> onlyNumeric st \<longrightarrow>
        buildExportData (handleCompare diffLines st) =
          concat (map (\<lambda>t. spec_exportRows t False
                              (filter (\<lambda>part. added part \<or> removed part)
                                 (diffLines (trim (sectionText (oldPdfSections st) t))
                                            (trim (sectionText (newPdfSections st) t)))))
                    (filter (\<lambda>t. selectedSections st t = Some True) (combinedSections st))))
   \<and> textRows ttl numeric [removedPart ''A'', addedPart ''B'', removedPart ''C''] =
       [(emptyRow ttl numeric)\<lparr>rowOldValue := ''A'', rowNewValue := ''B''\<rparr>,
        (emptyRow ttl numeric)\<lparr>rowOldValue := ''C'', rowNewValue := ''''\<rparr>]"
proof (intro conjI impI)
  show "textRows ttl numeric [removedPart ''A'', addedPart ''B'', removedPart ''C''] =
       [(emptyRow ttl numeric)\<lparr>rowOldValue := ''A'', rowNewValue := ''B''\<rparr>,
        (emptyRow ttl numeric)\<lparr>rowOldValue := ''C'', rowNewValue := ''''\<rparr>]"
    by (simp add: removedPart_def addedPart_def trim_def isWhiteSpace_def emptyRow_def)
next
  assume "\<forall>p \<in> set parts. added p \<or> removed p"
  then show "textRows ttl numeric parts = spec_exportRows ttl numeric parts"
    by (rule textRows_paired)
next
  show "\<forall>e \<in> set (comparisonResult (handleCompare diffLines st)).
        \<forall>chs. changes e = Some chs \<longrightarrow> (\<forall>p \<in> set chs. added p \<or> removed p)"
    by (rule handleCompare_changes)
next
  assume "\<not> onlyNumeric st"
  then show "buildExportData (handleCompare diffLines st) =
          concat (map (\<lambda>t. spec_exportRows t False
                              (filter (\<lambda>part. added part \<or> removed part)
                                 (diffLines (trim (sectionText (oldPdfSections st) t))
                                            (trim (sectionText (newPdfSections st) t)))))
                    (filter (\<lambda>t. selectedSections st t = Some True) (combinedSections st)))"
    using exported_text_rows [of st diffLines] by (simp add: storedChanges_def)
qed

theorem export_rows_pairing_witness:
  "list_all (\<lambda>p. added p \<or> removed p) [removedPart ''A'', addedPart ''B'', removedPart ''C'']
   \<and> \<not> onlyNumeric textState
   \<and> buildExportData (handleCompare replaceThenRemove textState) =
       [\<lparr>sectionTitle = ''Rates'', rowCategory = None, rowOldValue = ''A'', rowNewValue = ''B'',
         differenceType = ''Textual''\<rparr>,
        \<lparr>sectionTitle = ''Rates'', rowCategory = None, rowOldValue = ''C'', rowNewValue = '''',
         differenceType = ''Textual''\<rparr>]"
  using export_rows_pairing [where parts = "[removedPart ''A'', addedPart ''B'', removedPart ''C'']"
      and ttl = "''Rates''" and numeric = False and diffLines = replaceThenRemove and st = textState]
  by (simp add: removedPart_def addedPart_def emptyRow_def trim_def isWhiteSpace_def
      textState_def replaceThenRemove_def)

text \<open>
  Claim C8 as it is worded fails: when the diff of a section is removed \<open>a\<close>, unchanged
  \<open>k\<close>, added \<open>b\<close>, the removed and the added part are not adjacent and the
  specification's pairing gives an old-only and a new-only row; the code stores removed
  \<open>a\<close>, added \<open>b\<close> and exports the single row old \<open>a\<close>, new \<open>b\<close>.
\<close>

theorem separated_parts_paired_counterexample:
  "comparisonResult (handleCompare gappedDiff textState) =
       [\<lparr>entryTitle = ''Rates'', changes = Some [removedPart ''a'', addedPart ''b''],
         numericChanges = None\<rparr>]
   \<and> buildExportData (handleCompare gappedDiff textState) =
       [\<lparr>sectionTitle = ''Rates'', rowCategory = None, rowOldValue = ''a'', rowNewValue = ''b'',
         differenceType = ''Textual''\<rparr>]
   \<and> spec_exportRows ''Rates'' False (gappedDiff ''a\<newline>k'' ''k\<newline>b'') =
       [\<lparr>sectionTitle = ''Rates'', rowCategory = None, rowOldValue = ''a'', rowNewValue = '''',
         differenceType = ''Textual''\<rparr>,
        \<lparr>sectionTitle = ''Rates'', rowCategory = None, rowOldValue = '''', rowNewValue = ''b'',
         differenceType = ''Textual''\<rparr>]
   \<and> buildExportData (handleCompare gappedDiff textState)
       \<noteq> spec_exportRows ''Rates'' False (gappedDiff ''a\<newline>k'' ''k\<newline>b'')"
  by (simp add: handleCompare_def compareSection_def buildExportData_def entryRows_def
      textState_def gappedDiff_def sectionText_def removedPart_def addedPart_def unchangedPart_def
      emptyRow_def trim_def isWhiteSpace_def)

end
